theory Spec2Isabelle
  imports Complex_Main "HOL-Library.Char_ord" "HOL-Library.List_Lexorder"
begin

section \<open>Common data\<close>

text \<open>
  Coordinates are Python floats; they are modelled as reals, so rounding is not part of
  the model. \<open>math.hypot\<close> is the Euclidean norm. \<open>float('inf')\<close> as the start value
  of a running minimum is \<open>None\<close> in a \<open>real option\<close>.
\<close>

type_synonym pos = "real \<times> real"

definition hypot :: "real \<Rightarrow> real \<Rightarrow> real" where
  "hypot dx dy = sqrt (dx * dx + dy * dy)"

text \<open>\<open>d < min_dist\<close> where \<open>min_dist\<close> may still be \<open>float('inf')\<close>.\<close>

fun less_inf :: "real \<Rightarrow> real option \<Rightarrow> bool" where
  "less_inf d None = True"
| "less_inf d (Some m) = (d < m)"

datatype py_error =
  IndexError | ZeroDivisionError | UnboundLocalError | TypeError | KeyError | ValueError

text \<open>
  A Python dict keeps insertion order: an association list, where assigning to an
  existing key replaces the value in place and a new key is appended.
\<close>

fun dict_set :: "'k \<Rightarrow> 'v \<Rightarrow> ('k \<times> 'v) list \<Rightarrow> ('k \<times> 'v) list" where
  "dict_set k v [] = [(k, v)]"
| "dict_set k v ((k', v') # kvs) =
     (if k' = k then (k, v) # kvs else (k', v') # dict_set k v kvs)"

section \<open>cen\_broadcast.py: the edge node network\<close>

text \<open>
  The value stored for an edge node by \<open>initialize_edge_nodes\<close> in run\_simulation.py.
\<close>

record alert_info =
  alert_accident_id :: string
  alert_vehicles_involved :: "string \<times> string"
  alert_location :: pos
  alert_timestamp :: real
  alert_received_at :: real
  alert_hop_count :: nat
  alert_propagation_path :: "string list"

record edge_node =
  position :: pos
  connected_vehicles :: "string set"
  message_cache :: "string set"
  total_messages_received :: nat
  unique_accidents_reported :: "string set"
  accident_alerts_received :: "alert_info list"

text \<open>
  The dict stored per accident id. \<open>registered_by_edge\<close> and \<open>registered_by_name\<close> are
  \<open>None\<close> (Python's None) when there is no edge node at all.
\<close>

record accident_data =
  location :: pos
  last_time :: real
  registered_by_edge :: "string option"
  registered_by_name :: "string option"
  vehicles_involved :: "string set"

record CENBroadcast =
  interval :: real
  accidents :: "(string \<times> accident_data) list"
  edge_nodes :: "(string \<times> edge_node) list"
  edgecen_names :: "(string \<times> string) list"

definition CENBroadcast_init :: "real \<Rightarrow> (string \<times> edge_node) list \<Rightarrow> CENBroadcast" where
  "CENBroadcast_init iv nodes =
     \<lparr>interval = iv, accidents = [], edge_nodes = nodes,
      edgecen_names = [(''EdgeNode_A'', ''EdgeCEN_A''), (''EdgeNode_D'', ''EdgeCEN_D''),
                       (''EdgeNode_C'', ''EdgeCEN_C''), (''EdgeNode_I'', ''EdgeCEN_I'')]\<rparr>"

fun nearest_step :: "pos \<Rightarrow> string \<times> edge_node \<Rightarrow> real option \<times> string option
                     \<Rightarrow> real option \<times> string option" where
  "nearest_step (x, y) (edge_id, info) (min_dist, nearest_edge) =
     (let dist = hypot (x - fst (position info)) (y - snd (position info))
      in if less_inf dist min_dist then (Some dist, Some edge_id) else (min_dist, nearest_edge))"

definition get_nearest_edge_node :: "CENBroadcast \<Rightarrow> pos \<Rightarrow> string option" where
  "get_nearest_edge_node cen p = snd (fold (nearest_step p) (edge_nodes cen) (None, None))"

text \<open>\<open>self.edgecen_names.get(registering_edge, registering_edge)\<close>\<close>

definition registering_name_of :: "CENBroadcast \<Rightarrow> string option \<Rightarrow> string option" where
  "registering_name_of cen e =
     (case e of None \<Rightarrow> None
      | Some k \<Rightarrow> (case map_of (edgecen_names cen) k of None \<Rightarrow> Some k | Some n \<Rightarrow> Some n))"

text \<open>
  \<open>vehicles_involved\<close> is any iterable of strings; \<open>set(...)\<close> collects its elements.
\<close>

definition register :: "CENBroadcast \<Rightarrow> string \<Rightarrow> pos \<Rightarrow> real \<Rightarrow> string list \<Rightarrow> CENBroadcast" where
  "register cen accident_id loc sim_time involved =
     (let registering_edge = get_nearest_edge_node cen loc;
          registering_name = registering_name_of cen registering_edge
      in cen\<lparr>accidents := dict_set accident_id
                \<lparr>location = loc, last_time = sim_time,
                 registered_by_edge = registering_edge,
                 registered_by_name = registering_name,
                 vehicles_involved = set involved\<rparr> (accidents cen)\<rparr>)"

section \<open>The traffic simulator as an oracle\<close>

text \<open>
  The simulator is consulted through \<open>traci\<close>. A query that raises (the vehicle has left
  the simulation) is \<open>None\<close>; \<open>setRoute_accepts\<close> tells whether a \<open>setRoute\<close> command
  is accepted or raises \<open>TraCIException\<close>. The oracle is fixed during one call of the
  functions below and may be a different one at every call.
\<close>

text \<open>
  A road segment id as the vehicle code handles it: a string, or Python's \<open>None\<close>
  (the initial \<open>current_edge\<close>).
\<close>

datatype segment = PyNone | Seg string

fun truthy :: "segment \<Rightarrow> bool" where
  "truthy PyNone = False"
| "truthy (Seg s) = (s \<noteq> [])"

record traci =
  getIDList :: "string list"
  getPosition :: "string \<Rightarrow> pos option"
  getRoadID :: "string \<Rightarrow> string option"
  getRoute :: "string \<Rightarrow> string list option"
  setRoute_accepts :: "string \<Rightarrow> segment list \<Rightarrow> bool"
  getTime :: real

section \<open>vehicle.py\<close>

record Vehicle =
  veh_id :: string
  destination :: segment
  current_edge :: segment
  route :: "segment list"
  accidents_received :: "string set"

definition Vehicle_init :: "string \<Rightarrow> segment \<Rightarrow> Vehicle" where
  "Vehicle_init vid dest =
     \<lparr>veh_id = vid, destination = dest, current_edge = PyNone, route = [],
      accidents_received = {}\<rparr>"

definition update_position :: "traci \<Rightarrow> Vehicle \<Rightarrow> Vehicle" where
  "update_position tr v =
     (case getRoadID tr (veh_id v) of
        None \<Rightarrow> v
      | Some e \<Rightarrow>
          (case getRoute tr (veh_id v) of
             None \<Rightarrow> v\<lparr>current_edge := Seg e\<rparr>
           | Some r \<Rightarrow> v\<lparr>current_edge := Seg e, route := map Seg r\<rparr>))"

text \<open>The result \<open>None\<close> is \<open>float('inf')\<close>.\<close>

definition distance_to_cen :: "traci \<Rightarrow> Vehicle \<Rightarrow> pos \<Rightarrow> real option" where
  "distance_to_cen tr v cen_pos =
     (case getPosition tr (veh_id v) of
        None \<Rightarrow> None
      | Some veh_pos \<Rightarrow> Some (hypot (fst veh_pos - fst cen_pos) (snd veh_pos - snd cen_pos)))"

fun le_inf :: "real option \<Rightarrow> real \<Rightarrow> bool" where
  "le_inf None r = False"
| "le_inf (Some d) r = (d \<le> r)"

type_synonym graph = "(segment \<times> (segment \<times> real) list) list"

text \<open>
  \<open>map_position_to_edge\<close>: \<open>node_pos\<close> is a neighbour's id or the node's id, never a
  tuple, so both \<open>isinstance\<close> tests fail and \<open>dx = dy = 0\<close> for every node.
\<close>

fun map_position_step :: "pos \<Rightarrow> segment \<times> (segment \<times> real) list \<Rightarrow> real option \<times> segment
                          \<Rightarrow> real option \<times> segment" where
  "map_position_step p (node, neighbors) (min_dist, nearest_edge) =
     (let dx = 0; dy = 0; d = hypot dx dy
      in if less_inf d min_dist then (Some d, node) else (min_dist, nearest_edge))"

definition map_position_to_edge :: "Vehicle \<Rightarrow> pos \<Rightarrow> graph \<Rightarrow> segment" where
  "map_position_to_edge v p graph =
     (let nearest_edge = snd (fold (map_position_step p) graph (None, PyNone))
      in if truthy nearest_edge then nearest_edge else current_edge v)"

subsection \<open>aco\_reroute\<close>

text \<open>
  \<open>random.random()\<close> is a stream \<open>rnd\<close> of reals and the number of draws made so far.
  \<open>x ** alpha\<close> and \<open>x ** beta\<close> with \<open>alpha = 1.0\<close>, \<open>beta = 2.0\<close> are the first
  and second power. An error carries the number of draws made when it was raised.
\<close>

definition NUM_ANTS :: nat where "NUM_ANTS = 6"
definition MAX_HOPS :: nat where "MAX_HOPS = 20"
definition alpha :: nat where "alpha = 1"
definition beta :: nat where "beta = 2"
definition evaporation :: real where "evaporation = 1 / 10"

type_synonym pheromone = "segment \<rightharpoonup> real"

definition pheromone_init :: "graph \<Rightarrow> pheromone" where
  "pheromone_init graph = map_of (map (\<lambda>(edge, ns). (edge, 1)) graph)"

definition pheromone_get :: "pheromone \<Rightarrow> segment \<Rightarrow> real" where
  "pheromone_get ph n = (case ph n of None \<Rightarrow> 1 | Some t \<Rightarrow> t)"

definition graph_get :: "graph \<Rightarrow> segment \<Rightarrow> (segment \<times> real) list" where
  "graph_get graph n = (case map_of graph n of None \<Rightarrow> [] | Some ns \<Rightarrow> ns)"

fun edge_weights :: "pheromone \<Rightarrow> (segment \<times> real) list \<Rightarrow> py_error + real list" where
  "edge_weights ph [] = Inr []"
| "edge_weights ph ((n, c) # ncs) =
     (if c = 0 then Inl ZeroDivisionError
      else (case edge_weights ph ncs of
              Inl e \<Rightarrow> Inl e
            | Inr ps \<Rightarrow> Inr (pheromone_get ph n ^ alpha * (1 / c) ^ beta # ps)))"

definition normalise :: "real list \<Rightarrow> py_error + real list" where
  "normalise ps =
     (let total = sum_list ps
      in if ps \<noteq> [] \<and> total = 0 then Inl ZeroDivisionError
         else Inr (map (\<lambda>p. p / total) ps))"

fun choose_next :: "real \<Rightarrow> real \<Rightarrow> (segment \<times> real) list \<Rightarrow> real list \<Rightarrow> (segment \<times> real) option" where
  "choose_next r cumulative ((n, c) # ncs) (p # ps) =
     (let cumulative' = cumulative + p
      in if r \<le> cumulative' then Some (n, c) else choose_next r cumulative' ncs ps)"
| "choose_next r cumulative ncs ps = None"

text \<open>
  The local variables of one trial. \<open>next_pick\<close> holds \<open>next_node\<close> and \<open>next_cost\<close>,
  which keep their last value when the inner loop ends without a \<open>break\<close> and are unbound
  (\<open>None\<close>) before the first assignment.
\<close>

record ant_state =
  current :: segment
  visited :: "segment list"
  cost :: real
  next_pick :: "(segment \<times> real) option"
  draws :: nat

fun ant_walk :: "graph \<Rightarrow> segment \<Rightarrow> segment \<Rightarrow> pheromone \<Rightarrow> (nat \<Rightarrow> real) \<Rightarrow> nat \<Rightarrow> ant_state
                 \<Rightarrow> (py_error \<times> nat) + ant_state" where
  "ant_walk graph blocked dest ph rnd 0 s = Inr s"
| "ant_walk graph blocked dest ph rnd (Suc hops) s =
     (let neighbors = filter (\<lambda>(n, c). n \<noteq> blocked \<and> n \<notin> set (visited s))
                             (graph_get graph (current s))
      in if neighbors = [] then Inr s
         else (case edge_weights ph neighbors of
                 Inl e \<Rightarrow> Inl (e, draws s)
               | Inr ws \<Rightarrow>
                  (case normalise ws of
                     Inl e \<Rightarrow> Inl (e, draws s)
                   | Inr probs \<Rightarrow>
                      (let r = rnd (draws s);
                           pick = (case choose_next r 0 neighbors probs of
                                     None \<Rightarrow> next_pick s
                                   | Some nc \<Rightarrow> Some nc)
                       in case pick of
                            None \<Rightarrow> Inl (UnboundLocalError, Suc (draws s))
                          | Some (next_node, next_cost) \<Rightarrow>
                             (let s' = \<lparr>current = next_node,
                                        visited = visited s @ [next_node],
                                        cost = cost s + next_cost,
                                        next_pick = pick,
                                        draws = Suc (draws s)\<rparr>
                              in if next_node = dest then Inr s'
                                 else ant_walk graph blocked dest ph rnd hops s')))))"

record colony =
  trail :: pheromone
  best_route :: "segment list option"
  best_cost :: "real option"
  last_pick :: "(segment \<times> real) option"
  drawn :: nat

definition deposit :: "segment \<Rightarrow> pheromone \<Rightarrow> pheromone" where
  "deposit node ph = ph(node \<mapsto> (1 - evaporation) * pheromone_get ph node + 1 / 10)"

definition one_ant :: "graph \<Rightarrow> segment \<Rightarrow> segment \<Rightarrow> segment \<Rightarrow> (nat \<Rightarrow> real) \<Rightarrow> colony
                       \<Rightarrow> (py_error \<times> nat) + colony" where
  "one_ant graph blocked dest start rnd col =
     (case ant_walk graph blocked dest (trail col) rnd MAX_HOPS
             \<lparr>current = start, visited = [start], cost = 0,
              next_pick = last_pick col, draws = drawn col\<rparr> of
        Inl e \<Rightarrow> Inl e
      | Inr s \<Rightarrow>
          (let better = (last (visited s) = dest \<and> less_inf (cost s) (best_cost col))
           in Inr \<lparr>trail = fold deposit (visited s) (trail col),
                   best_route = (if better then Some (visited s) else best_route col),
                   best_cost = (if better then Some (cost s) else best_cost col),
                   last_pick = next_pick s,
                   drawn = draws s\<rparr>))"

fun run_ants :: "graph \<Rightarrow> segment \<Rightarrow> segment \<Rightarrow> segment \<Rightarrow> (nat \<Rightarrow> real) \<Rightarrow> nat \<Rightarrow> colony
                 \<Rightarrow> (py_error \<times> nat) + colony" where
  "run_ants graph blocked dest start rnd 0 col = Inr col"
| "run_ants graph blocked dest start rnd (Suc n) col =
     (case one_ant graph blocked dest start rnd col of
        Inl e \<Rightarrow> Inl e
      | Inr col' \<Rightarrow> run_ants graph blocked dest start rnd n col')"

text \<open>\<open>if not best_route\<close>: no trial reached the destination (or the list is empty).\<close>

definition fallback_route :: "Vehicle \<Rightarrow> segment \<Rightarrow> segment list option \<Rightarrow> segment list" where
  "fallback_route v blocked best =
     (case best of
        None \<Rightarrow> filter (\<lambda>e. e \<noteq> blocked) (route v)
      | Some r \<Rightarrow> if r = [] then filter (\<lambda>e. e \<noteq> blocked) (route v) else r)"

text \<open>\<open>best_route[0]\<close> raises IndexError on the empty list.\<close>

definition post_process :: "Vehicle \<Rightarrow> segment \<Rightarrow> segment list \<Rightarrow> py_error + segment list" where
  "post_process v blocked best =
     (case best of
        [] \<Rightarrow> Inl IndexError
      | b # bs \<Rightarrow>
          (let best' = (if b \<noteq> current_edge v then current_edge v # best else best)
           in Inr (filter (\<lambda>e. e \<noteq> blocked) best')))"

definition aco_reroute :: "(nat \<Rightarrow> real) \<Rightarrow> nat \<Rightarrow> Vehicle \<Rightarrow> graph \<Rightarrow> segment
                           \<Rightarrow> (py_error \<times> nat) + (segment list \<times> nat)" where
  "aco_reroute rnd k v graph blocked_edge =
     (case run_ants graph blocked_edge (destination v) (current_edge v) rnd NUM_ANTS
             \<lparr>trail = pheromone_init graph, best_route = None, best_cost = None,
              last_pick = None, drawn = k\<rparr> of
        Inl e \<Rightarrow> Inl e
      | Inr col \<Rightarrow>
          (case post_process v blocked_edge (fallback_route v blocked_edge (best_route col)) of
             Inl e \<Rightarrow> Inl (e, drawn col)
           | Inr r \<Rightarrow> Inr (r, drawn col)))"

subsection \<open>listen\_and\_reroute\<close>

text \<open>
  What a call does to the outside world, in order: the lines it prints and the commands
  it sends to the simulator. Each entry names the vehicle and the accident id that the
  loop was processing.
\<close>

datatype event =
    V2I_received string string
  | Reroute_computed string string
  | SetRoute_sent string string "segment list"
  | Reroute_printed string string
  | Error_printed string string
  | Broadcast_printed string
  | CEN_received string string

text \<open>
  The body of the loop over \<open>cen.accidents.items()\<close> for one accident. The state is the
  vehicle, the events so far and the number of random draws; the second component of
  the result is the exception raised, if any (\<open>aco_reroute\<close> is not inside a \<open>try\<close>).
\<close>

fun listen_body :: "traci \<Rightarrow> (nat \<Rightarrow> real) \<Rightarrow> (string \<times> pos) list \<Rightarrow> graph \<Rightarrow> real
                    \<Rightarrow> string \<times> accident_data \<Rightarrow> Vehicle \<times> event list \<times> nat
                    \<Rightarrow> (Vehicle \<times> event list \<times> nat) \<times> py_error option" where
  "listen_body tr rnd cen_positions graph comm_range (acc_id, data) (v, evs, k) =
     (if acc_id \<in> accidents_received v then ((v, evs, k), None)
      else (case registered_by_edge data of
              None \<Rightarrow> ((v, evs, k), None)
            | Some broadcasting_edge \<Rightarrow>
               (case map_of cen_positions broadcasting_edge of
                  None \<Rightarrow> ((v, evs, k), None)
                | Some cen_pos \<Rightarrow>
                   (if le_inf (distance_to_cen tr v cen_pos) comm_range
                    then
                      (let v1 = v\<lparr>accidents_received := insert acc_id (accidents_received v)\<rparr>;
                           evs1 = evs @ [V2I_received (veh_id v) acc_id];
                           accident_edge_actual = map_position_to_edge v1 (location data) graph;
                           old_route = route v1;
                           evs2 = evs1 @ [Reroute_computed (veh_id v) acc_id]
                       in case aco_reroute rnd k v1 graph accident_edge_actual of
                            Inl (e, k') \<Rightarrow> ((v1, evs2, k'), Some e)
                          | Inr (new_route, k') \<Rightarrow>
                             (if new_route \<noteq> old_route
                              then
                                (let v2 = v1\<lparr>route := new_route\<rparr>;
                                     evs3 = evs2 @ [SetRoute_sent (veh_id v) acc_id new_route]
                                 in if setRoute_accepts tr (veh_id v) new_route
                                    then ((v2, evs3 @ [Reroute_printed (veh_id v) acc_id], k'), None)
                                    else ((v2, evs3 @ [Error_printed (veh_id v) acc_id], k'), None))
                              else ((v1, evs2, k'), None)))
                    else ((v, evs, k), None)))))"

fun listen_loop :: "traci \<Rightarrow> (nat \<Rightarrow> real) \<Rightarrow> (string \<times> pos) list \<Rightarrow> graph \<Rightarrow> real
                    \<Rightarrow> (string \<times> accident_data) list \<Rightarrow> Vehicle \<times> event list \<times> nat
                    \<Rightarrow> (Vehicle \<times> event list \<times> nat) \<times> py_error option" where
  "listen_loop tr rnd cen_positions graph comm_range [] st = (st, None)"
| "listen_loop tr rnd cen_positions graph comm_range (a # rest) st =
     (case listen_body tr rnd cen_positions graph comm_range a st of
        (st', Some e) \<Rightarrow> (st', Some e)
      | (st', None) \<Rightarrow> listen_loop tr rnd cen_positions graph comm_range rest st')"

definition listen_and_reroute :: "traci \<Rightarrow> (nat \<Rightarrow> real) \<Rightarrow> nat \<Rightarrow> Vehicle \<Rightarrow> CENBroadcast
                                  \<Rightarrow> (string \<times> pos) list \<Rightarrow> graph \<Rightarrow> real
                                  \<Rightarrow> (Vehicle \<times> event list \<times> nat) \<times> py_error option" where
  "listen_and_reroute tr rnd k v cen cen_positions graph comm_range =
     (let v0 = update_position tr v
      in case getPosition tr (veh_id v0) of
           None \<Rightarrow> ((v0, [], k), None)
         | Some veh_pos \<Rightarrow>
             listen_loop tr rnd cen_positions graph comm_range (accidents cen) (v0, [], k))"

section \<open>cen\_broadcast.py: broadcast\<close>

text \<open>
  A Python call binds keyword arguments by name. A keyword that names no parameter of
  the callee, or a required parameter left without an argument, raises TypeError before
  the body runs. \<open>listen_and_reroute(self, cen, cen_positions, graph, comm_range=200)\<close>
  has the required parameters and the optional one below; \<open>broadcast\<close> calls it with
  the keywords \<open>broadcast_call_keywords\<close>.
\<close>

definition call_binds :: "string list \<Rightarrow> string list \<Rightarrow> string list \<Rightarrow> bool" where
  "call_binds required optional kws =
     (list_all (\<lambda>kw. kw \<in> set (required @ optional)) kws \<and> list_all (\<lambda>p. p \<in> set kws) required)"

definition listen_and_reroute_required :: "string list" where
  "listen_and_reroute_required = [''cen'', ''cen_positions'', ''graph'']"

definition listen_and_reroute_optional :: "string list" where
  "listen_and_reroute_optional = [''comm_range'']"

definition broadcast_call_keywords :: "string list" where
  "broadcast_call_keywords = [''cen'', ''cen_positions'', ''graph'', ''accident_edge'', ''comm_range'']"

text \<open>
  The first inner loop only prints. \<open>distance <= comm_range\<close> raises TypeError when
  \<open>comm_range\<close> is left at its default \<open>None\<close>; this loop is not inside a \<open>try\<close>.
\<close>

fun notify_edges :: "string \<Rightarrow> accident_data \<Rightarrow> real option \<Rightarrow> (string \<times> edge_node) list
                     \<Rightarrow> py_error + event list" where
  "notify_edges acc_id data comm_range [] = Inr []"
| "notify_edges acc_id data comm_range ((edge_id, edge_info) # es) =
     (let distance = hypot (fst (position edge_info) - fst (location data))
                           (snd (position edge_info) - snd (location data))
      in case comm_range of
           None \<Rightarrow> Inl TypeError
         | Some cr \<Rightarrow>
            (case notify_edges acc_id data comm_range es of
               Inl e \<Rightarrow> Inl e
             | Inr evs \<Rightarrow> Inr ((if distance \<le> cr then [CEN_received edge_id acc_id] else []) @ evs)))"

text \<open>
  The body of the loop over \<open>vehicles_dict.items()\<close>. Everything after the test on the
  involved set is inside \<open>try: ... except: continue\<close>, so every exception (the vehicle
  unknown to the simulator, KeyError on the registering node, TypeError on
  \<open>comm_range\<close>, TypeError of the call, an exception inside \<open>listen_and_reroute\<close>)
  ends the iteration for this vehicle and keeps what the vehicle has become so far.
\<close>

definition notify_vehicle :: "traci \<Rightarrow> (nat \<Rightarrow> real) \<Rightarrow> CENBroadcast \<Rightarrow> (string \<times> pos) list \<Rightarrow> graph
                             \<Rightarrow> real option \<Rightarrow> accident_data \<Rightarrow> string \<times> Vehicle
                             \<Rightarrow> event list \<times> nat \<Rightarrow> Vehicle \<times> event list \<times> nat" where
  "notify_vehicle tr rnd self positions_dict graph comm_range data vv st =
     (case (vv, st) of ((vid, vehicle), (evs, k)) \<Rightarrow>
      if vid \<in> vehicles_involved data then (vehicle, evs, k)
      else (case getPosition tr vid of
              None \<Rightarrow> (vehicle, evs, k)
            | Some veh_pos \<Rightarrow>
               (case registered_by_edge data of
                  None \<Rightarrow> (vehicle, evs, k)
                | Some broadcasting_edge \<Rightarrow>
                   (case map_of (edge_nodes self) broadcasting_edge of
                      None \<Rightarrow> (vehicle, evs, k)
                    | Some info \<Rightarrow>
                       (let cen_pos = position info;
                            dist = hypot (fst veh_pos - fst cen_pos) (snd veh_pos - snd cen_pos)
                        in case comm_range of
                             None \<Rightarrow> (vehicle, evs, k)
                           | Some cr \<Rightarrow>
                              (if dist \<le> cr
                               then
                                 (if call_binds listen_and_reroute_required
                                       listen_and_reroute_optional broadcast_call_keywords
                                  then
                                    (case listen_and_reroute tr rnd k vehicle self positions_dict graph cr of
                                       ((vehicle', evs', k'), err) \<Rightarrow> (vehicle', evs @ evs', k'))
                                  else (vehicle, evs, k))
                               else (vehicle, evs, k)))))))"

fun notify_vehicles :: "traci \<Rightarrow> (nat \<Rightarrow> real) \<Rightarrow> CENBroadcast \<Rightarrow> (string \<times> pos) list \<Rightarrow> graph
                        \<Rightarrow> real option \<Rightarrow> accident_data \<Rightarrow> (string \<times> Vehicle) list
                        \<Rightarrow> event list \<times> nat \<Rightarrow> (string \<times> Vehicle) list \<times> event list \<times> nat" where
  "notify_vehicles tr rnd self positions_dict graph comm_range data [] (evs, k) = ([], evs, k)"
| "notify_vehicles tr rnd self positions_dict graph comm_range data ((vid, vehicle) # vs) (evs, k) =
     (case notify_vehicle tr rnd self positions_dict graph comm_range data (vid, vehicle) (evs, k) of
        (vehicle', evs', k') \<Rightarrow>
          (case notify_vehicles tr rnd self positions_dict graph comm_range data vs (evs', k') of
             (vs', evs'', k'') \<Rightarrow> ((vid, vehicle') # vs', evs'', k'')))"

text \<open>
  The loop over \<open>self.accidents.items()\<close>. \<open>done\<close> holds the accidents already visited
  (with their new \<open>last_time\<close>), so that \<open>self\<close> is passed on as it is at that moment.
\<close>

fun broadcast_loop :: "traci \<Rightarrow> (nat \<Rightarrow> real) \<Rightarrow> real \<Rightarrow> graph \<Rightarrow> real option \<Rightarrow> CENBroadcast
                       \<Rightarrow> (string \<times> accident_data) list \<Rightarrow> (string \<times> accident_data) list
                       \<Rightarrow> (string \<times> Vehicle) list \<times> event list \<times> nat
                       \<Rightarrow> (CENBroadcast \<times> (string \<times> Vehicle) list \<times> event list \<times> nat) \<times> py_error option" where
  "broadcast_loop tr rnd sim_time graph comm_range cen done [] st =
     ((cen\<lparr>accidents := done\<rparr>, st), None)"
| "broadcast_loop tr rnd sim_time graph comm_range cen done ((acc_id, data) # todo) (vehicles_dict, evs, k) =
     (if sim_time - last_time data \<ge> interval cen
      then
        (let self = cen\<lparr>accidents := done @ (acc_id, data) # todo\<rparr>;
             evs1 = evs @ [Broadcast_printed acc_id]
         in case notify_edges acc_id data comm_range (edge_nodes cen) of
              Inl e \<Rightarrow> ((self, vehicles_dict, evs1, k), Some e)
            | Inr evs_edges \<Rightarrow>
               (let st' = (if vehicles_dict \<noteq> [] \<and> edge_nodes cen \<noteq> []
                           then notify_vehicles tr rnd self
                                  (map (\<lambda>(k, v). (k, position v)) (edge_nodes cen))
                                  graph comm_range data vehicles_dict (evs1 @ evs_edges, k)
                           else (vehicles_dict, evs1 @ evs_edges, k))
                in broadcast_loop tr rnd sim_time graph comm_range cen
                     (done @ [(acc_id, data\<lparr>last_time := sim_time\<rparr>)]) todo st'))
      else broadcast_loop tr rnd sim_time graph comm_range cen (done @ [(acc_id, data)]) todo
             (vehicles_dict, evs, k))"

definition broadcast :: "traci \<Rightarrow> (nat \<Rightarrow> real) \<Rightarrow> nat \<Rightarrow> CENBroadcast \<Rightarrow> real \<Rightarrow> (string \<times> Vehicle) list
                         \<Rightarrow> graph \<Rightarrow> real option
                         \<Rightarrow> (CENBroadcast \<times> (string \<times> Vehicle) list \<times> event list \<times> nat) \<times> py_error option" where
  "broadcast tr rnd k cen sim_time vehicles_dict graph comm_range =
     broadcast_loop tr rnd sim_time graph comm_range cen [] (accidents cen) (vehicles_dict, [], k)"

section \<open>run\_simulation.py\<close>

definition V2V_COMMUNICATION_RANGE :: real where "V2V_COMMUNICATION_RANGE = 200"
definition MAX_HOP_COUNT :: nat where "MAX_HOP_COUNT = 5"
definition COLLISION_DISTANCE :: real where "COLLISION_DISTANCE = 7.5"

text \<open>The road graph that the simulation passes to the vehicles.\<close>

definition sim_graph :: graph where
  "sim_graph =
     [(Seg ''A'', [(Seg ''B'', 100), (Seg ''D'', 100)]),
      (Seg ''B'', [(Seg ''A'', 100), (Seg ''C'', 100), (Seg ''E'', 100)]),
      (Seg ''C'', [(Seg ''B'', 100), (Seg ''F'', 100)]),
      (Seg ''D'', [(Seg ''A'', 100), (Seg ''E'', 100), (Seg ''G'', 100)]),
      (Seg ''E'', [(Seg ''B'', 100), (Seg ''D'', 100), (Seg ''F'', 100), (Seg ''H'', 100)]),
      (Seg ''F'', [(Seg ''C'', 100), (Seg ''E'', 100), (Seg ''I'', 100)]),
      (Seg ''G'', [(Seg ''D'', 100), (Seg ''H'', 100)]),
      (Seg ''H'', [(Seg ''G'', 100), (Seg ''E'', 100), (Seg ''I'', 100)]),
      (Seg ''I'', [(Seg ''F'', 100), (Seg ''H'', 100)])]"

definition EDGE_NODE_POSITIONS :: "(string \<times> pos) list" where
  "EDGE_NODE_POSITIONS =
     [(''EdgeNode_A'', (30, 20)), (''EdgeNode_D'', (30, 120)),
      (''EdgeNode_C'', (200, 180)), (''EdgeNode_I'', (200, 20))]"

definition initialize_edge_nodes :: "(string \<times> edge_node) list" where
  "initialize_edge_nodes =
     map (\<lambda>(node_id, p).
            (node_id, \<lparr>position = p, connected_vehicles = {}, message_cache = {},
                       total_messages_received = 0, unique_accidents_reported = {},
                       accident_alerts_received = []\<rparr>))
         EDGE_NODE_POSITIONS"

subsection \<open>V2V messages\<close>

record payload =
  payload_accident_id :: string
  payload_vehicles_involved :: "string \<times> string"
  payload_location :: pos
  payload_severity :: string
  payload_timestamp :: real

record V2VMessage =
  message_id :: string
  source_id :: string
  message_type :: string
  message_payload :: payload
  origin_location :: pos
  hop_count :: nat
  propagation_path :: "string list"
  timestamp :: real
  reached_edge_node :: bool

definition V2VMessage_init :: "traci \<Rightarrow> string \<Rightarrow> string \<Rightarrow> string \<Rightarrow> payload \<Rightarrow> pos \<Rightarrow> V2VMessage" where
  "V2VMessage_init tr mid src mtype pl origin =
     \<lparr>message_id = mid, source_id = src, message_type = mtype, message_payload = pl,
      origin_location = origin, hop_count = 0, propagation_path = [src],
      timestamp = getTime tr, reached_edge_node = False\<rparr>"

definition increment_hop :: "V2VMessage \<Rightarrow> string \<Rightarrow> V2VMessage" where
  "increment_hop m next_node =
     m\<lparr>hop_count := hop_count m + 1, propagation_path := propagation_path m @ [next_node]\<rparr>"

text \<open>
  The module's global state that alert propagation reads and writes. Messages are
  objects that \<open>message_history\<close> and the running calls share, so they live in a store
  (\<open>messages\<close>, addressed by position) and \<open>message_history\<close> holds addresses.
  \<open>hop_count_stats\<close> is a \<open>defaultdict(int)\<close>.
\<close>

record sim_state =
  sim_edge_nodes :: "(string \<times> edge_node) list"
  message_history :: "(string \<times> nat list) list"
  hop_count_stats :: "(nat \<times> nat) list"
  messages :: "V2VMessage list"
  successful_notifications :: nat

definition get_vehicle_position :: "traci \<Rightarrow> string \<Rightarrow> pos option" where
  "get_vehicle_position tr vehicle_id =
     (if vehicle_id \<in> set (getIDList tr) then getPosition tr vehicle_id else None)"

text \<open>The result \<open>None\<close> is \<open>float('inf')\<close>; a position \<open>None\<close> is Python's None.\<close>

fun calculate_distance :: "pos option \<Rightarrow> pos option \<Rightarrow> real option" where
  "calculate_distance (Some pos1) (Some pos2) =
     Some (hypot (fst pos1 - fst pos2) (snd pos1 - snd pos2))"
| "calculate_distance pos1 pos2 = None"

definition startswith :: "string \<Rightarrow> string \<Rightarrow> bool" where
  "startswith s pre = (take (length pre) s = pre)"

text \<open>
  Both searches keep the distance as a real: an entry is only made when the distance
  is at most the (finite) range. \<open>list.sort(key=...)\<close> is stable, as \<open>sort_key\<close> is.
\<close>

fun vehicles_in_range_step :: "traci \<Rightarrow> pos \<Rightarrow> string option \<Rightarrow> string
                               \<Rightarrow> (string \<times> real \<times> pos) list" where
  "vehicles_in_range_step tr source_position exclude_vehicle vehicle_id =
     (if Some vehicle_id = exclude_vehicle \<or> startswith vehicle_id ''ambulance'' then []
      else (case get_vehicle_position tr vehicle_id of
              None \<Rightarrow> []
            | Some vehicle_pos \<Rightarrow>
               (case calculate_distance (Some source_position) (Some vehicle_pos) of
                  None \<Rightarrow> []
                | Some distance \<Rightarrow>
                    if distance \<le> V2V_COMMUNICATION_RANGE
                    then [(vehicle_id, distance, vehicle_pos)] else [])))"

definition find_vehicles_in_range :: "traci \<Rightarrow> pos \<Rightarrow> string option \<Rightarrow> (string \<times> real \<times> pos) list" where
  "find_vehicles_in_range tr source_position exclude_vehicle =
     sort_key (\<lambda>x. fst (snd x))
       (concat (map (vehicles_in_range_step tr source_position exclude_vehicle) (getIDList tr)))"

fun edge_nodes_in_range_step :: "pos \<Rightarrow> string \<times> edge_node \<Rightarrow> (string \<times> real) list" where
  "edge_nodes_in_range_step p (edge_id, edge_info) =
     (case calculate_distance (Some p) (Some (position edge_info)) of
        None \<Rightarrow> []
      | Some distance \<Rightarrow>
          if distance \<le> V2V_COMMUNICATION_RANGE then [(edge_id, distance)] else [])"

definition find_edge_nodes_in_range :: "sim_state \<Rightarrow> pos \<Rightarrow> (string \<times> real) list" where
  "find_edge_nodes_in_range st p =
     sort_key snd (concat (map (edge_nodes_in_range_step p) (sim_edge_nodes st)))"

definition stats_get :: "(nat \<times> nat) list \<Rightarrow> nat \<Rightarrow> nat" where
  "stats_get stats h = (case map_of stats h of None \<Rightarrow> 0 | Some c \<Rightarrow> c)"

definition history_append :: "string \<Rightarrow> nat \<Rightarrow> (string \<times> nat list) list \<Rightarrow> (string \<times> nat list) list" where
  "history_append mid ref hist =
     dict_set mid ((case map_of hist mid of None \<Rightarrow> [] | Some refs \<Rightarrow> refs) @ [ref]) hist"

text \<open>
  What an edge node does on receiving message \<open>m\<close> (stored at address \<open>ref\<close>).
\<close>

definition edge_receive :: "traci \<Rightarrow> V2VMessage \<Rightarrow> edge_node \<Rightarrow> edge_node" where
  "edge_receive tr m node =
     (let node1 = node\<lparr>message_cache := insert (message_id m) (message_cache node),
                       total_messages_received := total_messages_received node + 1\<rparr>
      in if message_type m = ''EMERGENCY''
         then node1\<lparr>unique_accidents_reported :=
                      insert (payload_accident_id (message_payload m)) (unique_accidents_reported node1),
                    accident_alerts_received := accident_alerts_received node1 @
                      [\<lparr>alert_accident_id = payload_accident_id (message_payload m),
                        alert_vehicles_involved = payload_vehicles_involved (message_payload m),
                        alert_location = payload_location (message_payload m),
                        alert_timestamp = payload_timestamp (message_payload m),
                        alert_received_at = getTime tr,
                        alert_hop_count = hop_count m,
                        alert_propagation_path = propagation_path m\<rparr>]\<rparr>
         else node1)"

text \<open>
  The loop over the edge nodes in range: the first one that has not cached the message
  id receives it and the function returns True (\<open>Some\<close> of the new state); \<open>None\<close> when
  the loop ends without a delivery. The ids come from \<open>sim_edge_nodes\<close> itself, so the
  lookup \<open>edge_nodes[edge_id]\<close> finds them.
\<close>

fun deliver_first :: "traci \<Rightarrow> sim_state \<Rightarrow> V2VMessage \<Rightarrow> nat \<Rightarrow> (string \<times> real) list
                      \<Rightarrow> sim_state option" where
  "deliver_first tr st m ref [] = None"
| "deliver_first tr st m ref ((edge_id, distance) # rest) =
     (case map_of (sim_edge_nodes st) edge_id of
        None \<Rightarrow> deliver_first tr st m ref rest
      | Some node \<Rightarrow>
          if message_id m \<notin> message_cache node
          then Some (st\<lparr>sim_edge_nodes := dict_set edge_id (edge_receive tr m node) (sim_edge_nodes st),
                        messages := (messages st)[ref := m\<lparr>reached_edge_node := True\<rparr>],
                        hop_count_stats := dict_set (hop_count m)
                                             (stats_get (hop_count_stats st) (hop_count m) + 1)
                                             (hop_count_stats st)\<rparr>)
          else deliver_first tr st m ref rest)"

text \<open>
  The relay clone for \<open>vehicle_id\<close>: a fresh message, \<open>hop_count\<close> set to the parent's
  plus one, the parent's path copied, and then \<open>increment_hop\<close>.
\<close>

definition relay_clone :: "traci \<Rightarrow> V2VMessage \<Rightarrow> string \<Rightarrow> V2VMessage" where
  "relay_clone tr m vehicle_id =
     (let next_message = V2VMessage_init tr (message_id m) vehicle_id (message_type m)
                           (message_payload m) (origin_location m);
          next_message = next_message\<lparr>hop_count := hop_count m + 1\<rparr>;
          next_message = next_message\<lparr>propagation_path := propagation_path m\<rparr>
      in increment_hop next_message vehicle_id)"

text \<open>
  \<open>propagate_v2v_message\<close> with its loop over the vehicles in range (\<open>relay\<close>). \<open>m\<close> is the
  message and \<open>ref\<close> its address in the store.
\<close>

function propagate_v2v_message :: "traci \<Rightarrow> sim_state \<Rightarrow> V2VMessage \<Rightarrow> nat \<Rightarrow> string \<Rightarrow> pos
                                    \<Rightarrow> sim_state \<times> bool"
  and relay :: "traci \<Rightarrow> sim_state \<Rightarrow> V2VMessage \<Rightarrow> string \<Rightarrow> (string \<times> real \<times> pos) list
                \<Rightarrow> sim_state \<times> bool" where
  "propagate_v2v_message tr st m ref current_vehicle_id current_position =
     (if hop_count m \<ge> MAX_HOP_COUNT then (st, False)
      else (case deliver_first tr st m ref (find_edge_nodes_in_range st current_position) of
              Some st' \<Rightarrow> (st', True)
            | None \<Rightarrow>
                relay tr st m current_vehicle_id
                  (find_vehicles_in_range tr current_position (Some current_vehicle_id))))"
| "relay tr st m current_vehicle_id [] = (st, False)"
| "relay tr st m current_vehicle_id ((vehicle_id, distance, vehicle_pos) # rest) =
     (if vehicle_id \<in> set (propagation_path m) then relay tr st m current_vehicle_id rest
      else
        (let next_message = relay_clone tr m vehicle_id;
             st1 = st\<lparr>messages := messages st @ [next_message],
                      message_history := history_append (message_id next_message)
                                           (length (messages st)) (message_history st)\<rparr>
         in case propagate_v2v_message tr st1 next_message (length (messages st))
                   vehicle_id vehicle_pos of
              (st2, success) \<Rightarrow>
                if success then (st2, True) else relay tr st2 m current_vehicle_id rest))"
  by pat_completeness auto

termination propagate_v2v_message
  apply (relation "inv_image (less_than <*lex*> less_than)
     (\<lambda>x. case x of
        Inl (tr, st, m, ref, cv, cp) \<Rightarrow>
          (if hop_count m \<ge> MAX_HOP_COUNT then 0 else 2 * (MAX_HOP_COUNT - hop_count m) + 1, 0)
      | Inr (tr, st, m, cv, cands) \<Rightarrow>
          (if hop_count m \<ge> MAX_HOP_COUNT then 1 else 2 * (MAX_HOP_COUNT - hop_count m),
           length cands))")
     apply (auto simp: relay_clone_def increment_hop_def V2VMessage_init_def MAX_HOP_COUNT_def Let_def)
  done

text \<open>
  \<open>broadcast_emergency_alert\<close>. The message id (\<open>EMERGENCY_\<close> and eight hex digits of a
  fresh uuid) is given by the caller of the model.
\<close>

definition broadcast_emergency_alert :: "traci \<Rightarrow> sim_state \<Rightarrow> string \<Rightarrow> string \<Rightarrow> pos
                                         \<Rightarrow> string \<times> string \<Rightarrow> string \<Rightarrow> sim_state \<times> bool" where
  "broadcast_emergency_alert tr st mid source_vehicle_id accident_location collision_pair accident_id =
     (case get_vehicle_position tr source_vehicle_id of
        None \<Rightarrow> (st, False)
      | Some source_position \<Rightarrow>
          (let emergency_payload =
                 \<lparr>payload_accident_id = accident_id, payload_vehicles_involved = collision_pair,
                  payload_location = accident_location, payload_severity = ''HIGH'',
                  payload_timestamp = getTime tr\<rparr>;
               message = V2VMessage_init tr mid source_vehicle_id ''EMERGENCY'' emergency_payload
                           accident_location;
               st1 = st\<lparr>messages := messages st @ [message],
                        message_history := dict_set mid [length (messages st)] (message_history st)\<rparr>
           in case propagate_v2v_message tr st1 message (length (messages st))
                     source_vehicle_id source_position of
                (st2, success) \<Rightarrow>
                  if success
                  then (st2\<lparr>successful_notifications := successful_notifications st2 + 1\<rparr>, True)
                  else (st2, False)))"

text \<open>The messages recorded for a message id, read from the store.\<close>

definition history_of :: "sim_state \<Rightarrow> string \<Rightarrow> V2VMessage list" where
  "history_of st mid =
     (case map_of (message_history st) mid of
        None \<Rightarrow> []
      | Some refs \<Rightarrow> map (\<lambda>r. messages st ! r) refs)"

text \<open>
  The call \<open>cen.register(accident_id, (x, y), sim_time, source_vehicle)\<close> of the main
  loop passes the id of the first vehicle of the pair, a string; \<open>set(...)\<close> of a string
  is the set of its characters (strings of length one).
\<close>

definition register_collision :: "CENBroadcast \<Rightarrow> string \<Rightarrow> pos \<Rightarrow> real \<Rightarrow> string \<times> string
                                  \<Rightarrow> CENBroadcast" where
  "register_collision cen accident_id loc sim_time collision_pair =
     (let source_vehicle = fst collision_pair
      in register cen accident_id loc sim_time (map (\<lambda>c. [c]) source_vehicle))"

subsection \<open>Collision detection\<close>



fun lt_inf :: "real option \<Rightarrow> real \<Rightarrow> bool" where
  "lt_inf None r = False"
| "lt_inf (Some d) r = (d < r)"



section \<open>accident.py\<close>





section \<open>best\_erv.py\<close>

definition POP_SIZE :: nat where "POP_SIZE = 20"
definition GENERATIONS :: nat where "GENERATIONS = 30"
definition TOURNAMENT_K :: nat where "TOURNAMENT_K = 3"
definition CROSSOVER_RATE :: real where "CROSSOVER_RATE = 0.8"
definition MUTATION_RATE :: real where "MUTATION_RATE = 0.1"

definition ambulance_readiness :: "(string \<times> real) list" where
  "ambulance_readiness = [(''ambulance0'', 85), (''ambulance1'', 70), (''ambulance2'', 90)]"

definition ambulance_routes :: "(string \<times> string) list" where
  "ambulance_routes =
     [(''ambulance0'', ''routeAmbulance0''), (''ambulance1'', ''routeAmbulance1''),
      (''ambulance2'', ''routeAmbulance2'')]"

definition ambulance_anchor_edges :: "(string \<times> string) list" where
  "ambulance_anchor_edges =
     [(''ambulance0'', ''A_B''), (''ambulance1'', ''D_G''), (''ambulance2'', ''H_I'')]"

subsection \<open>fitness\<close>

text \<open>
  The congestion estimator of congestion.py is consulted as a function from the road id
  to a score; \<open>None\<close> is an exception raised by it. The \<open>try\<close> block of \<open>fitness\<close>
  turns an exception of the simulator or of the estimator into 5.0.
\<close>

definition congestion_val :: "traci \<Rightarrow> (string \<Rightarrow> real option) \<Rightarrow> string \<Rightarrow> real" where
  "congestion_val tr get_fuzzy_congestion individual =
     (case getRoadID tr individual of
        None \<Rightarrow> 5
      | Some edge_id \<Rightarrow>
          (case get_fuzzy_congestion edge_id of None \<Rightarrow> 5 | Some c \<Rightarrow> c))"

text \<open>
  The accident edge bonus. \<open>if accident_edge:\<close> is false for None and for the empty
  string. An individual without anchor edge has \<open>anchor_edge = None\<close>, and
  \<open>anchor_edge[0]\<close> raises TypeError; an empty anchor would raise IndexError.
\<close>

definition edge_bonus :: "string \<Rightarrow> segment \<Rightarrow> py_error + real" where
  "edge_bonus individual accident_edge =
     (case accident_edge of
        PyNone \<Rightarrow> Inr 0
      | Seg e \<Rightarrow>
          if e = [] then Inr 0
          else (case map_of ambulance_anchor_edges individual of
                  None \<Rightarrow> Inl TypeError
                | Some anchor_edge \<Rightarrow>
                    if anchor_edge = e then Inr 1
                    else if anchor_edge = [] then Inl IndexError
                    else if hd anchor_edge = hd e \<or> last anchor_edge = last e then Inr (1 / 2)
                    else Inr 0))"

definition fitness :: "traci \<Rightarrow> (string \<Rightarrow> real option) \<Rightarrow> string \<Rightarrow> real \<Rightarrow> real
                       \<Rightarrow> (string \<times> pos) list \<Rightarrow> segment \<Rightarrow> py_error + real" where
  "fitness tr get_fuzzy_congestion individual accident_x accident_y positions accident_edge =
     (case map_of positions individual of
        None \<Rightarrow> Inr (- 9999)
      | Some (x, y) \<Rightarrow>
          (let dist = sqrt ((x - accident_x)\<^sup>2 + (y - accident_y)\<^sup>2);
               readiness = (case map_of ambulance_readiness individual of
                              None \<Rightarrow> 50 | Some r \<Rightarrow> r);
               congestion = congestion_val tr get_fuzzy_congestion individual;
               readiness_norm = readiness / 100;
               distance_penalty = dist / 200;
               congestion_penalty = congestion / 10
           in case edge_bonus individual accident_edge of
                Inl e \<Rightarrow> Inl e
              | Inr bonus \<Rightarrow>
                  Inr (readiness_norm - distance_penalty - congestion_penalty + bonus)))"

subsection \<open>Selection, crossover, mutation\<close>

text \<open>
  The random source: \<open>random.choice\<close> draws an index from the stream \<open>pick\<close> (reduced
  modulo the length) and \<open>random.random()\<close> a real from the stream \<open>rnd\<close>; \<open>k\<close> counts
  the draws made so far, of both kinds. \<open>random.choice\<close> raises IndexError on an empty
  sequence.
\<close>

definition random_choice :: "(nat \<Rightarrow> nat) \<Rightarrow> nat \<Rightarrow> 'a list \<Rightarrow> py_error + 'a" where
  "random_choice pick k xs =
     (if xs = [] then Inl IndexError else Inr (xs ! (pick k mod length xs)))"

fun tournament_rounds :: "(nat \<Rightarrow> nat) \<Rightarrow> string list \<Rightarrow> (string \<times> real) list \<Rightarrow> nat \<Rightarrow> string
                          \<Rightarrow> nat \<Rightarrow> py_error + (string \<times> nat)" where
  "tournament_rounds pick pop fitnesses 0 best k = Inr (best, k)"
| "tournament_rounds pick pop fitnesses (Suc n) best k =
     (case random_choice pick k pop of
        Inl e \<Rightarrow> Inl e
      | Inr challenger \<Rightarrow>
          (case map_of fitnesses challenger of
             None \<Rightarrow> Inl KeyError
           | Some fc \<Rightarrow>
               (case map_of fitnesses best of
                  None \<Rightarrow> Inl KeyError
                | Some fb \<Rightarrow>
                    tournament_rounds pick pop fitnesses n
                      (if fc > fb then challenger else best) (k + 1))))"

definition tournament_selection :: "(nat \<Rightarrow> nat) \<Rightarrow> nat \<Rightarrow> string list \<Rightarrow> (string \<times> real) list
                                    \<Rightarrow> py_error + (string \<times> nat)" where
  "tournament_selection pick k pop fitnesses =
     (case random_choice pick k pop of
        Inl e \<Rightarrow> Inl e
      | Inr best \<Rightarrow> tournament_rounds pick pop fitnesses (TOURNAMENT_K - 1) best (k + 1))"

definition crossover :: "(nat \<Rightarrow> nat) \<Rightarrow> (nat \<Rightarrow> real) \<Rightarrow> nat \<Rightarrow> string \<Rightarrow> string
                         \<Rightarrow> py_error + (string \<times> nat)" where
  "crossover pick rnd k parent1 parent2 =
     (if rnd k < CROSSOVER_RATE
      then (case random_choice pick (k + 1) [parent1, parent2] of
              Inl e \<Rightarrow> Inl e
            | Inr child \<Rightarrow> Inr (child, k + 2))
      else Inr (parent1, k + 1))"

definition mutate :: "(nat \<Rightarrow> nat) \<Rightarrow> (nat \<Rightarrow> real) \<Rightarrow> nat \<Rightarrow> string \<Rightarrow> py_error + (string \<times> nat)" where
  "mutate pick rnd k individual =
     (if rnd k < MUTATION_RATE
      then (case random_choice pick (k + 1) (map fst ambulance_readiness) of
              Inl e \<Rightarrow> Inl e
            | Inr other \<Rightarrow> Inr (other, k + 2))
      else Inr (individual, k + 1))"

subsection \<open>The GA driver\<close>

text \<open>
  \<open>{ind: fitness(ind, ...) for ind in population}\<close>: the fitness is computed for every
  member in order; the dict keeps a key at the place of its first insertion.
\<close>

fun fitness_dict :: "(string \<Rightarrow> py_error + real) \<Rightarrow> string list \<Rightarrow> (string \<times> real) list
                     \<Rightarrow> py_error + (string \<times> real) list" where
  "fitness_dict f [] d = Inr d"
| "fitness_dict f (ind # pop) d =
     (case f ind of
        Inl e \<Rightarrow> Inl e
      | Inr v \<Rightarrow> fitness_dict f pop (dict_set ind v d))"

text \<open>The \<open>while len(new_population) < POP_SIZE\<close> loop.\<close>

function breed :: "(nat \<Rightarrow> nat) \<Rightarrow> (nat \<Rightarrow> real) \<Rightarrow> string list \<Rightarrow> (string \<times> real) list
                   \<Rightarrow> string list \<Rightarrow> nat \<Rightarrow> py_error + (string list \<times> nat)" where
  "breed pick rnd population fitnesses new_population k =
     (if length new_population < POP_SIZE
      then
        (case tournament_selection pick k population fitnesses of
           Inl e \<Rightarrow> Inl e
         | Inr (p1, k1) \<Rightarrow>
            (case tournament_selection pick k1 population fitnesses of
               Inl e \<Rightarrow> Inl e
             | Inr (p2, k2) \<Rightarrow>
                (case crossover pick rnd k2 p1 p2 of
                   Inl e \<Rightarrow> Inl e
                 | Inr (child, k3) \<Rightarrow>
                    (case mutate pick rnd k3 child of
                       Inl e \<Rightarrow> Inl e
                     | Inr (child', k4) \<Rightarrow>
                         breed pick rnd population fitnesses (new_population @ [child']) k4))))
      else Inr (new_population, k))"
  by pat_completeness auto
termination
  by (relation "measure (\<lambda>(pick, rnd, population, fitnesses, new_population, k).
                            POP_SIZE - length new_population)") auto

fun evolve :: "(string \<Rightarrow> py_error + real) \<Rightarrow> (nat \<Rightarrow> nat) \<Rightarrow> (nat \<Rightarrow> real) \<Rightarrow> nat \<Rightarrow> string list
               \<Rightarrow> nat \<Rightarrow> py_error + (string list \<times> nat)" where
  "evolve f pick rnd 0 population k = Inr (population, k)"
| "evolve f pick rnd (Suc n) population k =
     (case fitness_dict f population [] of
        Inl e \<Rightarrow> Inl e
      | Inr fitnesses \<Rightarrow>
          (case breed pick rnd population fitnesses [] k of
             Inl e \<Rightarrow> Inl e
           | Inr (new_population, k') \<Rightarrow> evolve f pick rnd n new_population k'))"

fun initial_population :: "(nat \<Rightarrow> nat) \<Rightarrow> nat \<Rightarrow> nat \<Rightarrow> py_error + (string list \<times> nat)" where
  "initial_population pick 0 k = Inr ([], k)"
| "initial_population pick (Suc n) k =
     (case random_choice pick k (map fst ambulance_readiness) of
        Inl e \<Rightarrow> Inl e
      | Inr ind \<Rightarrow>
          (case initial_population pick n (k + 1) of
             Inl e \<Rightarrow> Inl e
           | Inr (rest, k') \<Rightarrow> Inr (ind # rest, k')))"

text \<open>
  \<open>max(d, key=d.get)\<close> walks the keys in order and keeps the first of the maximal ones;
  it raises ValueError on an empty dict.
\<close>

fun max_key_from :: "(string \<times> real) list \<Rightarrow> string \<times> real \<Rightarrow> string" where
  "max_key_from [] (b, fb) = b"
| "max_key_from ((i, v) # rest) (b, fb) =
     (if v > fb then max_key_from rest (i, v) else max_key_from rest (b, fb))"

definition py_max_key :: "(string \<times> real) list \<Rightarrow> py_error + string" where
  "py_max_key d = (case d of [] \<Rightarrow> Inl ValueError | (b, fb) # rest \<Rightarrow> Inr (max_key_from rest (b, fb)))"

text \<open>The population after the last generation.\<close>

definition final_population :: "traci \<Rightarrow> (string \<Rightarrow> real option) \<Rightarrow> (nat \<Rightarrow> nat) \<Rightarrow> (nat \<Rightarrow> real) \<Rightarrow> nat
                                \<Rightarrow> real \<Rightarrow> real \<Rightarrow> (string \<times> pos) list \<Rightarrow> segment
                                \<Rightarrow> py_error + (string list \<times> nat)" where
  "final_population tr cong pick rnd k accident_x accident_y positions accident_edge =
     (case initial_population pick POP_SIZE k of
        Inl e \<Rightarrow> Inl e
      | Inr (population, k1) \<Rightarrow>
          evolve (\<lambda>ind. fitness tr cong ind accident_x accident_y positions accident_edge)
            pick rnd GENERATIONS population k1)"

definition select_best_ambulance :: "traci \<Rightarrow> (string \<Rightarrow> real option) \<Rightarrow> (nat \<Rightarrow> nat) \<Rightarrow> (nat \<Rightarrow> real)
                                     \<Rightarrow> nat \<Rightarrow> real \<Rightarrow> real \<Rightarrow> (string \<times> pos) list \<Rightarrow> segment
                                     \<Rightarrow> py_error + (string \<times> nat)" where
  "select_best_ambulance tr cong pick rnd k accident_x accident_y positions accident_edge =
     (case final_population tr cong pick rnd k accident_x accident_y positions accident_edge of
        Inl e \<Rightarrow> Inl e
      | Inr (population, k') \<Rightarrow>
          (case fitness_dict (\<lambda>ind. fitness tr cong ind accident_x accident_y positions accident_edge)
                  population [] of
             Inl e \<Rightarrow> Inl e
           | Inr final_fitnesses \<Rightarrow>
               (case py_max_key final_fitnesses of
                  Inl e \<Rightarrow> Inl e
                | Inr best \<Rightarrow>
                    (case map_of ambulance_routes best of
                       None \<Rightarrow> Inl KeyError
                     | Some r \<Rightarrow> Inr (best, k')))))"

section \<open>Notions for the statements and proofs\<close>

text \<open>Two positions are closer than the collision threshold of the main loop.\<close>

definition collides :: "pos option \<Rightarrow> pos option \<Rightarrow> bool" where
  "collides p1 p2 = lt_inf (calculate_distance p1 p2) COLLISION_DISTANCE"






text \<open>
  Which accident an event of \<open>listen_and_reroute\<close> belongs to: the route recomputation,
  the \<open>setRoute\<close> command, or any event at all.
\<close>

fun is_recompute :: "string \<Rightarrow> event \<Rightarrow> bool" where
  "is_recompute acc (Reroute_computed vid a) = (a = acc)"
| "is_recompute acc e = False"

fun is_setroute :: "string \<Rightarrow> event \<Rightarrow> bool" where
  "is_setroute acc (SetRoute_sent vid a r) = (a = acc)"
| "is_setroute acc e = False"

fun concerns :: "string \<Rightarrow> event \<Rightarrow> bool" where
  "concerns acc (V2I_received vid a) = (a = acc)"
| "concerns acc (Reroute_computed vid a) = (a = acc)"
| "concerns acc (SetRoute_sent vid a r) = (a = acc)"
| "concerns acc (Reroute_printed vid a) = (a = acc)"
| "concerns acc (Error_printed vid a) = (a = acc)"
| "concerns acc e = False"

type_synonym listen_call =
  "traci \<times> (nat \<Rightarrow> real) \<times> nat \<times> CENBroadcast \<times> (string \<times> pos) list \<times> graph \<times> real"

fun listen_calls :: "listen_call list \<Rightarrow> Vehicle \<Rightarrow> Vehicle \<times> event list" where
  "listen_calls [] v = (v, [])"
| "listen_calls ((tr, rnd, k, cen, cen_positions, graph, comm_range) # calls) v =
     (case listen_and_reroute tr rnd k v cen cen_positions graph comm_range of
        ((v', evs, k'), err) \<Rightarrow>
          (case listen_calls calls v' of (v'', evs') \<Rightarrow> (v'', evs @ evs')))"

text \<open>
  Between two states of a vehicle with the events \<open>new\<close> in between: the processed set
  only grew, every accident was recomputed and commanded at most once, and an accident
  with an event was unprocessed before and is processed after.
\<close>

definition once_inv :: "Vehicle \<Rightarrow> Vehicle \<Rightarrow> event list \<Rightarrow> bool" where
  "once_inv v v' new =
     (accidents_received v \<subseteq> accidents_received v' \<and>
      (\<forall>acc. length (filter (is_recompute acc) new) \<le> 1 \<and>
             length (filter (is_setroute acc) new) \<le> 1 \<and>
             ((\<exists>e \<in> set new. concerns acc e) \<longrightarrow>
                acc \<notin> accidents_received v \<and> acc \<in> accidents_received v')))"

text \<open>
  The stored route after a run of events, starting from \<open>cur\<close>: every \<open>setRoute\<close>
  command sent, accepted or not, replaces it; \<open>None\<close> if a command repeats the route
  stored before it.
\<close>

fun replay :: "segment list \<Rightarrow> event list \<Rightarrow> segment list option" where
  "replay cur [] = Some cur"
| "replay cur (SetRoute_sent vid a r # es) = (if r = cur then None else replay r es)"
| "replay cur (e # es) = replay cur es"

definition logged_inv :: "traci \<Rightarrow> Vehicle \<Rightarrow> event list \<Rightarrow> bool" where
  "logged_inv tr v new =
     (\<forall>vid acc r. SetRoute_sent vid acc r \<in> set new \<longrightarrow>
        vid = veh_id v \<and>
        (if setRoute_accepts tr vid r then Reroute_printed vid acc \<in> set new
         else Error_printed vid acc \<in> set new))"

definition listen_inv :: "traci \<Rightarrow> Vehicle \<Rightarrow> Vehicle \<Rightarrow> event list \<Rightarrow> bool" where
  "listen_inv tr v v' new =
     (veh_id v' = veh_id v \<and> once_inv v v' new \<and>
      replay (route v) new = Some (route v') \<and> logged_inv tr v new)"

text \<open>
  The edge bonus in the words of the specification: a segment id such as \<open>A_B\<close> names
  its two end nodes by its first and last character, and two segments share an endpoint
  when these sets meet.
\<close>

definition endpoints :: "string \<Rightarrow> char set" where
  "endpoints s = {hd s, last s}"

definition spec_edge_bonus :: "string \<Rightarrow> string \<Rightarrow> real" where
  "spec_edge_bonus anchor accident_segment =
     (if anchor = accident_segment then 1
      else if endpoints anchor \<inter> endpoints accident_segment \<noteq> {} then 1 / 2
      else 0)"

text \<open>
  The edge bonus as amended: one half when the two ids begin with the same character or
  end with the same character; nothing when there is no accident segment.
\<close>

definition amended_edge_bonus :: "string \<Rightarrow> segment \<Rightarrow> real" where
  "amended_edge_bonus anchor accident_edge =
     (case accident_edge of
        PyNone \<Rightarrow> 0
      | Seg e \<Rightarrow>
          if e = [] then 0
          else if anchor = e then 1
          else if hd anchor = hd e \<or> last anchor = last e then 1 / 2
          else 0)"

definition readiness_of :: "string \<Rightarrow> real" where
  "readiness_of a = (case map_of ambulance_readiness a of None \<Rightarrow> 50 | Some r \<Rightarrow> r)"

section \<open>Concrete inputs\<close>

text \<open>A random stream whose every draw is 0 (\<open>random.random()\<close> ranges over \<open>[0, 1)\<close>).\<close>

definition zero_draws :: "nat \<Rightarrow> real" where
  "zero_draws i = 0"

text \<open>The graph \<open>A - B - C\<close> with weights 1, 1.\<close>

definition line_graph :: graph where
  "line_graph =
     [(Seg ''A'', [(Seg ''B'', 1)]),
      (Seg ''B'', [(Seg ''A'', 1), (Seg ''C'', 1)]),
      (Seg ''C'', [(Seg ''B'', 1)])]"





text \<open>
  The network of the simulation (interval 10, the four edge nodes) holding two accidents.
\<close>

definition cen0 :: CENBroadcast where
  "cen0 = (CENBroadcast_init 10 initialize_edge_nodes)
     \<lparr>accidents :=
        [(''ACC_001'', \<lparr>location = (30, 20), last_time = 0,
                        registered_by_edge = Some ''EdgeNode_A'',
                        registered_by_name = Some ''EdgeCEN_A'',
                        vehicles_involved = {''veh0''}\<rparr>),
         (''ACC_002'', \<lparr>location = (30, 120), last_time = 3,
                        registered_by_edge = Some ''EdgeNode_D'',
                        registered_by_name = Some ''EdgeCEN_D'',
                        vehicles_involved = {''veh2''}\<rparr>)]\<rparr>"

text \<open>
  Four vehicles on a line, 150 apart and far from every edge node, none of them known
  to the simulator by road or route; and the state of the module before any alert.
\<close>

definition traci_line :: traci where
  "traci_line =
     \<lparr>getIDList = [''veh0'', ''veh1'', ''veh2'', ''veh3''],
      getPosition = map_of [(''veh0'', (1000, 1000)), (''veh1'', (1150, 1000)),
                            (''veh2'', (1300, 1000)), (''veh3'', (1450, 1000))],
      getRoadID = (\<lambda>v. None), getRoute = (\<lambda>v. None),
      setRoute_accepts = (\<lambda>v r. True), getTime = 42\<rparr>"

definition sim_state0 :: sim_state where
  "sim_state0 = \<lparr>sim_edge_nodes = initialize_edge_nodes, message_history = [],
                  hop_count_stats = [], messages = [], successful_notifications = 0\<rparr>"

text \<open>
  Two vehicles at the position of \<open>EdgeNode_A\<close>, as the simulator reports them; the
  same simulator rejecting every \<open>setRoute\<close>; and the two vehicle objects.
\<close>

definition traci_near :: traci where
  "traci_near =
     \<lparr>getIDList = [''veh0'', ''veh5''],
      getPosition = map_of [(''veh0'', (30, 20)), (''veh5'', (30, 20))],
      getRoadID = map_of [(''veh0'', ''A''), (''veh5'', ''A'')],
      getRoute = map_of [(''veh0'', [''A'', ''B'']), (''veh5'', [''A'', ''B'', ''C''])],
      setRoute_accepts = (\<lambda>v r. True), getTime = 10\<rparr>"

definition veh5 :: Vehicle where
  "veh5 = \<lparr>veh_id = ''veh5'', destination = Seg ''C'', current_edge = Seg ''A'',
            route = [Seg ''A'', Seg ''B'', Seg ''C''], accidents_received = {}\<rparr>"

definition veh0 :: Vehicle where
  "veh0 = \<lparr>veh_id = ''veh0'', destination = Seg ''B'', current_edge = Seg ''A'',
            route = [Seg ''A'', Seg ''B''], accidents_received = {}\<rparr>"

definition traci_reject :: traci where
  "traci_reject = traci_near\<lparr>setRoute_accepts := \<lambda>v r. False\<rparr>"

text \<open>
  The three ambulances on their parking roads, and a congestion estimator that returns
  2 for every road.
\<close>

definition traci_amb :: traci where
  "traci_amb =
     \<lparr>getIDList = [''ambulance0'', ''ambulance1'', ''ambulance2''],
      getPosition = map_of [(''ambulance0'', (3, 4)), (''ambulance1'', (30, 120)),
                            (''ambulance2'', (200, 20))],
      getRoadID = map_of [(''ambulance0'', ''A_B_parking''), (''ambulance1'', ''D_G_parking''),
                          (''ambulance2'', ''H_I_parking'')],
      getRoute = (\<lambda>v. None), setRoute_accepts = (\<lambda>v r. True), getTime = 12\<rparr>"

definition congestion2 :: "string \<Rightarrow> real option" where
  "congestion2 edge = Some 2"

text \<open>A \<open>random.choice\<close> stream that always draws the first element.\<close>

definition first_pick :: "nat \<Rightarrow> nat" where
  "first_pick i = 0"

section \<open>Properties\<close>

lemma map_of_dict_set: "map_of (dict_set k v kvs) = (map_of kvs)(k \<mapsto> v)"
  by (induction kvs) auto

lemma keys_dict_set:
  "map fst (dict_set k v kvs) = (if k \<in> fst ` set kvs then map fst kvs else map fst kvs @ [k])"
  by (induction kvs) force+

text \<open>
  C10. Registering under an accident id that is already stored replaces the record of
  that id by the new location, time, registering node and name and involved set; the
  record of every other id, the order of the ids and the other fields of the network
  stay as they were.
\<close>

theorem register_replaces_record:
  assumes "map_of (accidents cen) aid = Some old"
  shows "map_of (accidents (register cen aid loc t involved)) aid =
           Some \<lparr>location = loc, last_time = t,
                 registered_by_edge = get_nearest_edge_node cen loc,
                 registered_by_name = registering_name_of cen (get_nearest_edge_node cen loc),
                 vehicles_involved = set involved\<rparr>
       \<and> (\<forall>other. other \<noteq> aid \<longrightarrow>
            map_of (accidents (register cen aid loc t involved)) other = map_of (accidents cen) other)
       \<and> map fst (accidents (register cen aid loc t involved)) = map fst (accidents cen)
       \<and> edge_nodes (register cen aid loc t involved) = edge_nodes cen
       \<and> interval (register cen aid loc t involved) = interval cen"
proof -
  from assms have "aid \<in> fst ` set (accidents cen)"
    by (metis map_of_SomeD fst_conv image_eqI)
  then show ?thesis
    by (simp add: register_def Let_def map_of_dict_set keys_dict_set)
qed

lemma hypot_less_hypot: "hypot a b < hypot c d \<longleftrightarrow> a * a + b * b < c * c + d * d"
  by (simp add: hypot_def)

theorem register_replaces_record_witness:
  "map_of (accidents cen0) ''ACC_001'' =
     Some \<lparr>location = (30, 20), last_time = 0, registered_by_edge = Some ''EdgeNode_A'',
           registered_by_name = Some ''EdgeCEN_A'', vehicles_involved = {''veh0''}\<rparr>
   \<and> map_of (accidents (register cen0 ''ACC_001'' (190, 170) 7 [''veh5'', ''veh6''])) ''ACC_001'' =
     Some \<lparr>location = (190, 170), last_time = 7, registered_by_edge = Some ''EdgeNode_C'',
           registered_by_name = Some ''EdgeCEN_C'', vehicles_involved = {''veh5'', ''veh6''}\<rparr>
   \<and> ''ACC_002'' \<noteq> ''ACC_001''
   \<and> map_of (accidents (register cen0 ''ACC_001'' (190, 170) 7 [''veh5'', ''veh6''])) ''ACC_002'' =
     map_of (accidents cen0) ''ACC_002''
   \<and> map fst (accidents (register cen0 ''ACC_001'' (190, 170) 7 [''veh5'', ''veh6''])) =
     [''ACC_001'', ''ACC_002'']"
proof -
  have old: "map_of (accidents cen0) ''ACC_001'' =
     Some \<lparr>location = (30, 20), last_time = 0, registered_by_edge = Some ''EdgeNode_A'',
           registered_by_name = Some ''EdgeCEN_A'', vehicles_involved = {''veh0''}\<rparr>"
    by (simp add: cen0_def)
  have near: "get_nearest_edge_node cen0 (190, 170) = Some ''EdgeNode_C''"
    by (simp add: get_nearest_edge_node_def cen0_def CENBroadcast_init_def
        initialize_edge_nodes_def EDGE_NODE_POSITIONS_def hypot_less_hypot)
  have name: "registering_name_of cen0 (Some ''EdgeNode_C'') = Some ''EdgeCEN_C''"
    by (simp add: registering_name_of_def cen0_def CENBroadcast_init_def)
  have keys: "map fst (accidents cen0) = [''ACC_001'', ''ACC_002'']"
    by (simp add: cen0_def)
  from register_replaces_record [OF old, of "(190, 170)" 7 "[''veh5'', ''veh6'']"] old near name keys
  show ?thesis by auto
qed

lemmas aco_eval_defs =
  aco_reroute_def NUM_ANTS_def MAX_HOPS_def eval_nat_numeral one_ant_def graph_get_def
  pheromone_init_def pheromone_get_def normalise_def zero_draws_def alpha_def beta_def
  deposit_def evaporation_def fallback_route_def post_process_def

lemma post_process_shape:
  assumes "post_process v blocked best = Inr r"
  shows "blocked \<notin> set r"
    and "blocked \<noteq> current_edge v \<Longrightarrow> r \<noteq> [] \<and> hd r = current_edge v"
  using assms by (auto simp: post_process_def Let_def split: list.splits if_splits)

text \<open>
  C2, as stated, fails: a vehicle that stands on the blocked segment gets a route whose
  first element is not its current segment (the blocked segment is stripped last).
\<close>

theorem aco_reroute_start_counterexample:
  "aco_reroute zero_draws 0
     \<lparr>veh_id = ''veh0'', destination = Seg ''C'', current_edge = Seg ''A'',
      route = [Seg ''A'', Seg ''B'', Seg ''C''], accidents_received = {}\<rparr>
     sim_graph (Seg ''A'') = Inr ([Seg ''B'', Seg ''C''], 12)
   \<and> hd [Seg ''B'', Seg ''C''] \<noteq> Seg ''A''"
  by (simp add: aco_eval_defs sim_graph_def)

text \<open>
  C2, amended. Whenever \<open>aco_reroute\<close> returns a route, the route contains no occurrence
  of the blocked segment; and when the blocked segment is not the vehicle's current
  segment, the route is not empty and its first element is the current segment.
\<close>

theorem aco_reroute_route_shape:
  assumes "aco_reroute rnd k v graph blocked = Inr (r, k')"
  shows "blocked \<notin> set r \<and> (blocked \<noteq> current_edge v \<longrightarrow> r \<noteq> [] \<and> hd r = current_edge v)"
proof -
  from assms obtain best where "post_process v blocked best = Inr r"
    by (auto simp: aco_reroute_def split: sum.splits)
  then show ?thesis
    using post_process_shape by blast
qed

theorem aco_reroute_route_shape_witness:
  "aco_reroute zero_draws 0
     \<lparr>veh_id = ''veh0'', destination = Seg ''I'', current_edge = Seg ''A'',
      route = [Seg ''A'', Seg ''B'', Seg ''C''], accidents_received = {}\<rparr>
     sim_graph (Seg ''E'') = Inr ([Seg ''A'', Seg ''B'', Seg ''C'', Seg ''F'', Seg ''I''], 24)
   \<and> Seg ''E'' \<notin> set [Seg ''A'', Seg ''B'', Seg ''C'', Seg ''F'', Seg ''I'']
   \<and> Seg ''E'' \<noteq> Seg ''A''
   \<and> hd [Seg ''A'', Seg ''B'', Seg ''C'', Seg ''F'', Seg ''I''] = Seg ''A''"
proof -
  have run: "aco_reroute zero_draws 0
     \<lparr>veh_id = ''veh0'', destination = Seg ''I'', current_edge = Seg ''A'',
      route = [Seg ''A'', Seg ''B'', Seg ''C''], accidents_received = {}\<rparr>
     sim_graph (Seg ''E'') = Inr ([Seg ''A'', Seg ''B'', Seg ''C'', Seg ''F'', Seg ''I''], 24)"
    by (simp add: aco_eval_defs sim_graph_def)
  from aco_reroute_route_shape [OF run] run show ?thesis
    by simp
qed

text \<open>
  C8. On the graph \<open>A - B - C\<close> with \<open>B\<close> blocked, a vehicle at \<open>A\<close> bound for \<open>C\<close> whose
  stored route is still the empty list of \<open>Vehicle.__init__\<close> (or holds only \<open>B\<close>): no
  trial reaches \<open>C\<close>, the filtered fallback route is empty, and \<open>best_route[0]\<close> raises
  IndexError instead of returning a route.
\<close>

theorem aco_reroute_empty_fallback_raises:
  "aco_reroute zero_draws 0 ((Vehicle_init ''veh0'' (Seg ''C''))\<lparr>current_edge := Seg ''A''\<rparr>)
     line_graph (Seg ''B'') = Inl (IndexError, 0)
   \<and> aco_reroute zero_draws 0
       ((Vehicle_init ''veh0'' (Seg ''C''))\<lparr>current_edge := Seg ''A'', route := [Seg ''B'']\<rparr>)
       line_graph (Seg ''B'') = Inl (IndexError, 0)"
  by (simp add: aco_eval_defs line_graph_def Vehicle_init_def)

subsection \<open>Collision detection\<close>

lemma hypot_swap: "hypot (a - b) (c - d) = hypot (b - a) (d - c)"
proof -
  have "(a - b) * (a - b) = (b - a) * (b - a)" "(c - d) * (c - d) = (d - c) * (d - c)"
    by (simp_all add: algebra_simps)
  then show ?thesis by (simp add: hypot_def)
qed

lemma calculate_distance_sym: "calculate_distance p1 p2 = calculate_distance p2 p1"
  by (cases p1; cases p2) (simp_all add: hypot_swap)

lemma collides_sym: "collides p1 p2 = collides p2 p1"
  by (simp add: collides_def calculate_distance_sym)



























lemma hypot_le_iff: "0 \<le> r \<Longrightarrow> hypot dx dy \<le> r \<longleftrightarrow> dx * dx + dy * dy \<le> r * r"
proof -
  assume r: "0 \<le> r"
  have "sqrt (r * r) = r" using r by simp
  then have "hypot dx dy \<le> r \<longleftrightarrow> sqrt (dx * dx + dy * dy) \<le> sqrt (r * r)"
    by (simp only: hypot_def)
  also have "\<dots> \<longleftrightarrow> dx * dx + dy * dy \<le> r * r"
    by (rule real_sqrt_le_iff)
  finally show ?thesis .
qed






subsection \<open>Alert propagation\<close>

lemma hypot_le_hypot: "hypot a b \<le> hypot c d \<longleftrightarrow> a * a + b * b \<le> c * c + d * d"
  by (simp add: hypot_def)

lemma hypot_le_RANGE:
  "hypot dx dy \<le> V2V_COMMUNICATION_RANGE \<longleftrightarrow> dx * dx + dy * dy \<le> 40000"
proof -
  have "hypot dx dy \<le> V2V_COMMUNICATION_RANGE \<longleftrightarrow>
        dx * dx + dy * dy \<le> V2V_COMMUNICATION_RANGE * V2V_COMMUNICATION_RANGE"
    by (rule hypot_le_iff) (simp add: V2V_COMMUNICATION_RANGE_def)
  then show ?thesis by (simp add: V2V_COMMUNICATION_RANGE_def)
qed

text \<open>
  C1. The relay clone gets \<open>hop_count = message.hop_count + 1\<close> and is then passed to
  \<open>increment_hop\<close>, which adds one more: every clone is two hops above its parent. On
  four vehicles in a line the recorded chain has the hop counts 0, 2, 4, 6, and the
  last clone is above \<open>MAX_HOP_COUNT\<close>.
\<close>

theorem relay_clone_counts_two_hops:
  "hop_count (relay_clone tr m vehicle_id) = hop_count m + 2
   \<and> map (\<lambda>m. (hop_count m, propagation_path m))
        (history_of (fst (broadcast_emergency_alert traci_line sim_state0 ''EMERGENCY_0'' ''veh0''
           (1000, 1000) (''veh0'', ''veh9'') ''ACC_001'')) ''EMERGENCY_0'') =
      [(0, [''veh0'']), (2, [''veh0'', ''veh1'']), (4, [''veh0'', ''veh1'', ''veh2'']),
       (6, [''veh0'', ''veh1'', ''veh2'', ''veh3''])]
   \<and> MAX_HOP_COUNT < 6"
proof -
  have "hop_count (relay_clone tr m vehicle_id) = hop_count m + 2"
    by (simp add: relay_clone_def increment_hop_def V2VMessage_init_def Let_def)
  moreover have "map (\<lambda>m. (hop_count m, propagation_path m))
        (history_of (fst (broadcast_emergency_alert traci_line sim_state0 ''EMERGENCY_0'' ''veh0''
           (1000, 1000) (''veh0'', ''veh9'') ''ACC_001'')) ''EMERGENCY_0'') =
      [(0, [''veh0'']), (2, [''veh0'', ''veh1'']), (4, [''veh0'', ''veh1'', ''veh2'']),
       (6, [''veh0'', ''veh1'', ''veh2'', ''veh3''])]"
    by (simp add: broadcast_emergency_alert_def traci_line_def sim_state0_def
        get_vehicle_position_def V2VMessage_init_def history_of_def find_edge_nodes_in_range_def
        find_vehicles_in_range_def initialize_edge_nodes_def EDGE_NODE_POSITIONS_def
        hypot_le_RANGE hypot_le_hypot startswith_def relay_clone_def increment_hop_def
        history_append_def MAX_HOP_COUNT_def Let_def)
  ultimately show ?thesis by (simp add: MAX_HOP_COUNT_def)
qed

subsection \<open>listen\_and\_reroute\<close>

lemma once_inv_refl: "once_inv v v []"
  by (simp add: once_inv_def)

lemma is_recompute_concerns: "is_recompute acc e \<Longrightarrow> concerns acc e"
  by (cases e) auto
lemma is_setroute_concerns: "is_setroute acc e \<Longrightarrow> concerns acc e"
  by (cases e) auto

lemma filter_nonempty_concerns:
  "filter (is_recompute acc) new \<noteq> [] \<Longrightarrow> \<exists>e \<in> set new. concerns acc e"
  "filter (is_setroute acc) new \<noteq> [] \<Longrightarrow> \<exists>e \<in> set new. concerns acc e"
  by (auto simp: filter_empty_conv intro: is_recompute_concerns is_setroute_concerns)

lemma once_inv_trans:
  assumes a: "once_inv v v1 new1" and b: "once_inv v1 v2 new2"
  shows "once_inv v v2 (new1 @ new2)"
proof -
  have sub: "accidents_received v \<subseteq> accidents_received v2"
    using a b by (auto simp: once_inv_def)
  have c1: "(\<exists>e \<in> set new1. concerns acc e) \<Longrightarrow> acc \<notin> accidents_received v \<and> acc \<in> accidents_received v1" for acc
    using a by (simp add: once_inv_def)
  have c2: "(\<exists>e \<in> set new2. concerns acc e) \<Longrightarrow> acc \<notin> accidents_received v1 \<and> acc \<in> accidents_received v2" for acc
    using b by (simp add: once_inv_def)
  have excl: "\<not> ((\<exists>e \<in> set new1. concerns acc e) \<and> (\<exists>e \<in> set new2. concerns acc e))" for acc
    using c1 [of acc] c2 [of acc] by blast
  have r: "length (filter (is_recompute acc) (new1 @ new2)) \<le> 1" for acc
  proof (cases "filter (is_recompute acc) new1 = []")
    case True
    then show ?thesis using b by (simp add: once_inv_def)
  next
    case False
    then have "\<exists>e \<in> set new1. concerns acc e" by (rule filter_nonempty_concerns)
    with excl [of acc] have "\<not> (\<exists>e \<in> set new2. concerns acc e)" by blast
    then have "filter (is_recompute acc) new2 = []"
      using filter_nonempty_concerns(1) by blast
    then show ?thesis using a by (simp add: once_inv_def)
  qed
  have s: "length (filter (is_setroute acc) (new1 @ new2)) \<le> 1" for acc
  proof (cases "filter (is_setroute acc) new1 = []")
    case True
    then show ?thesis using b by (simp add: once_inv_def)
  next
    case False
    then have "\<exists>e \<in> set new1. concerns acc e" by (rule filter_nonempty_concerns)
    with excl [of acc] have "\<not> (\<exists>e \<in> set new2. concerns acc e)" by blast
    then have "filter (is_setroute acc) new2 = []"
      using filter_nonempty_concerns(2) by blast
    then show ?thesis using a by (simp add: once_inv_def)
  qed
  have m: "(\<exists>e \<in> set (new1 @ new2). concerns acc e) \<Longrightarrow>
        acc \<notin> accidents_received v \<and> acc \<in> accidents_received v2" for acc
  proof -
    assume "\<exists>e \<in> set (new1 @ new2). concerns acc e"
    then consider "\<exists>e \<in> set new1. concerns acc e" | "\<exists>e \<in> set new2. concerns acc e" by auto
    then show ?thesis
    proof cases
      case 1
      with c1 [of acc] b show ?thesis by (auto simp: once_inv_def)
    next
      case 2
      with c2 [of acc] a show ?thesis by (auto simp: once_inv_def)
    qed
  qed
  show ?thesis unfolding once_inv_def using sub r s m by blast
qed

lemma listen_body_once:
  assumes "listen_body tr rnd cps g cr a (v, evs, k) = ((v', evs', k'), err)"
  shows "\<exists>new. evs' = evs @ new \<and> once_inv v v' new"
proof -
  obtain acc_id data where a: "a = (acc_id, data)" by (cases a)
  show ?thesis
    using assms unfolding a
    by (auto simp: once_inv_def Let_def split: if_splits option.splits sum.splits prod.splits)
qed


lemma replay_append:
  "replay cur (xs @ ys) = (case replay cur xs of None \<Rightarrow> None | Some c \<Rightarrow> replay c ys)"
proof (induction xs arbitrary: cur)
  case Nil then show ?case by simp
next
  case (Cons e xs)
  then show ?case by (cases e) simp_all
qed

lemma listen_inv_refl: "listen_inv tr v v []"
  by (simp add: listen_inv_def once_inv_refl logged_inv_def)

lemma listen_inv_trans:
  assumes "listen_inv tr v v1 new1" "listen_inv tr v1 v2 new2"
  shows "listen_inv tr v v2 (new1 @ new2)"
proof -
  have "once_inv v v2 (new1 @ new2)"
    using assms once_inv_trans by (auto simp: listen_inv_def)
  moreover have "replay (route v) (new1 @ new2) = Some (route v2)"
    using assms by (simp add: listen_inv_def replay_append)
  moreover have "logged_inv tr v (new1 @ new2)"
    using assms unfolding listen_inv_def logged_inv_def by (auto split: if_splits)
  moreover have "veh_id v2 = veh_id v"
    using assms by (simp add: listen_inv_def)
  ultimately show ?thesis by (simp add: listen_inv_def)
qed

lemma listen_body_inv:
  assumes "listen_body tr rnd cps g cr a (v, evs, k) = ((v', evs', k'), err)"
  shows "\<exists>new. evs' = evs @ new \<and> listen_inv tr v v' new"
proof -
  obtain acc_id data where a: "a = (acc_id, data)" by (cases a)
  show ?thesis
    using assms unfolding a
    by (auto simp: listen_inv_def once_inv_def logged_inv_def Let_def
        split: if_splits option.splits sum.splits prod.splits)
qed

lemma listen_loop_inv:
  assumes "listen_loop tr rnd cps g cr accs (v, evs, k) = ((v', evs', k'), err)"
  shows "\<exists>new. evs' = evs @ new \<and> listen_inv tr v v' new"
  using assms
proof (induction accs arbitrary: v evs k)
  case Nil
  then show ?case by (auto simp: listen_inv_refl)
next
  case (Cons a accs)
  obtain v1 evs1 k1 err1 where b: "listen_body tr rnd cps g cr a (v, evs, k) = ((v1, evs1, k1), err1)"
    by (metis prod_cases3 surj_pair)
  from listen_body_inv [OF b] obtain new1 where n1: "evs1 = evs @ new1" "listen_inv tr v v1 new1"
    by blast
  show ?case
  proof (cases err1)
    case (Some e)
    with Cons.prems b n1 show ?thesis by auto
  next
    case None
    with Cons.prems b have "listen_loop tr rnd cps g cr accs (v1, evs1, k1) = ((v', evs', k'), err)"
      by simp
    from Cons.IH [OF this] obtain new2 where n2: "evs' = evs1 @ new2" "listen_inv tr v1 v' new2"
      by blast
    from n1 n2 listen_inv_trans show ?thesis by auto
  qed
qed

lemma update_position_keeps:
  "veh_id (update_position tr v) = veh_id v"
  "accidents_received (update_position tr v) = accidents_received v"
  by (simp_all add: update_position_def split: option.splits)

lemma listen_and_reroute_inv:
  assumes "listen_and_reroute tr rnd k v cen cps g cr = ((v', evs, k'), err)"
  shows "listen_inv tr (update_position tr v) v' evs"
proof (cases "getPosition tr (veh_id (update_position tr v))")
  case None
  with assms show ?thesis by (auto simp: listen_and_reroute_def Let_def listen_inv_refl)
next
  case (Some p)
  with assms have "listen_loop tr rnd cps g cr (accidents cen) (update_position tr v, [], k)
      = ((v', evs, k'), err)"
    by (simp add: listen_and_reroute_def Let_def)
  from listen_loop_inv [OF this] show ?thesis by simp
qed

lemma listen_and_reroute_once:
  assumes "listen_and_reroute tr rnd k v cen cps g cr = ((v', evs, k'), err)"
  shows "once_inv v v' evs"
  using listen_and_reroute_inv [OF assms]
  by (simp add: listen_inv_def once_inv_def update_position_keeps)

lemma listen_calls_once: "listen_calls calls v = (v', evs) \<Longrightarrow> once_inv v v' evs"
proof (induction calls arbitrary: v v' evs)
  case Nil
  then show ?case by (simp add: once_inv_refl)
next
  case (Cons c calls)
  obtain tr rnd k cen cps g cr where c: "c = (tr, rnd, k, cen, cps, g, cr)"
    by (metis prod_cases3 surj_pair)
  obtain v1 evs1 k1 err1 where r: "listen_and_reroute tr rnd k v cen cps g cr = ((v1, evs1, k1), err1)"
    by (metis prod_cases3 surj_pair)
  obtain v2 evs2 where l: "listen_calls calls v1 = (v2, evs2)" by (cases "listen_calls calls v1")
  from Cons.prems c r l have eq: "v' = v2" "evs = evs1 @ evs2" by simp_all
  from listen_and_reroute_once [OF r] Cons.IH [OF l] once_inv_trans
  show ?case unfolding eq by blast
qed

text \<open>
  C6. A call of \<open>listen_and_reroute\<close> only adds to the vehicle's \<open>accidents_received\<close>,
  whatever the call does and however it ends; and over any sequence of calls on the
  vehicle, with any simulator, network, graph and random draws at each call, the route
  is recomputed at most once and \<open>setRoute\<close> is sent at most once for each accident id.
\<close>

theorem processed_set_grows_reroute_once:
  "accidents_received v
     \<subseteq> accidents_received (fst (fst (listen_and_reroute tr rnd k v cen cps g cr)))
   \<and> accidents_received v \<subseteq> accidents_received (fst (listen_calls calls v))
   \<and> length (filter (is_recompute acc) (snd (listen_calls calls v))) \<le> 1
   \<and> length (filter (is_setroute acc) (snd (listen_calls calls v))) \<le> 1"
proof -
  obtain v1 evs1 k1 err1 where r: "listen_and_reroute tr rnd k v cen cps g cr = ((v1, evs1, k1), err1)"
    by (metis prod_cases3 surj_pair)
  obtain v2 evs2 where l: "listen_calls calls v = (v2, evs2)" by (cases "listen_calls calls v")
  from listen_and_reroute_once [OF r] listen_calls_once [OF l] show ?thesis
    by (simp add: r l once_inv_def)
qed


lemma map_position_sim_graph: "map_position_to_edge v p sim_graph = Seg ''A''"
  by (simp add: map_position_to_edge_def sim_graph_def hypot_def)

lemma aco1: "aco_reroute zero_draws 0
     \<lparr>veh_id = ''veh5'', destination = Seg ''C'', current_edge = Seg ''A'',
      route = [Seg ''A'', Seg ''B'', Seg ''C''], accidents_received = {''ACC_001''}\<rparr>
     sim_graph (Seg ''A'') = Inr ([Seg ''B'', Seg ''C''], 12)"
  by (simp add: aco_eval_defs sim_graph_def)

lemma aco2: "aco_reroute zero_draws 12
     \<lparr>veh_id = ''veh5'', destination = Seg ''C'', current_edge = Seg ''A'',
      route = [Seg ''B'', Seg ''C''], accidents_received = {''ACC_002'', ''ACC_001''}\<rparr>
     sim_graph (Seg ''A'') = Inr ([Seg ''B'', Seg ''C''], 24)"
  by (simp add: aco_eval_defs sim_graph_def)

lemma run_reject:
  "listen_and_reroute traci_reject zero_draws 0 veh5 cen0 EDGE_NODE_POSITIONS sim_graph 200 =
   ((veh5\<lparr>route := [Seg ''B'', Seg ''C''], accidents_received := {''ACC_002'', ''ACC_001''}\<rparr>,
     [V2I_received ''veh5'' ''ACC_001'', Reroute_computed ''veh5'' ''ACC_001'',
      SetRoute_sent ''veh5'' ''ACC_001'' [Seg ''B'', Seg ''C''], Error_printed ''veh5'' ''ACC_001'',
      V2I_received ''veh5'' ''ACC_002'', Reroute_computed ''veh5'' ''ACC_002''], 24), None)"
  by (simp add: listen_and_reroute_def update_position_def traci_reject_def traci_near_def
      veh5_def cen0_def CENBroadcast_init_def EDGE_NODE_POSITIONS_def distance_to_cen_def
      hypot_le_iff map_position_sim_graph aco1 aco2 Let_def)

text \<open>
  C9, as stated, fails: the vehicle stores the new route before it sends \<open>setRoute\<close>,
  so after a rejected command its stored route is the new one, not the one before.
\<close>

theorem rejected_setRoute_counterexample:
  "route veh5 = [Seg ''A'', Seg ''B'', Seg ''C'']
   \<and> route (update_position traci_reject veh5) = [Seg ''A'', Seg ''B'', Seg ''C'']
   \<and> \<not> setRoute_accepts traci_reject ''veh5'' [Seg ''B'', Seg ''C'']
   \<and> SetRoute_sent ''veh5'' ''ACC_001'' [Seg ''B'', Seg ''C'']
        \<in> set (fst (snd (fst (listen_and_reroute traci_reject zero_draws 0 veh5 cen0
                                 EDGE_NODE_POSITIONS sim_graph 200))))
   \<and> route (fst (fst (listen_and_reroute traci_reject zero_draws 0 veh5 cen0
                         EDGE_NODE_POSITIONS sim_graph 200))) = [Seg ''B'', Seg ''C'']
   \<and> accidents_received (fst (fst (listen_and_reroute traci_reject zero_draws 0 veh5 cen0
                         EDGE_NODE_POSITIONS sim_graph 200))) \<noteq> accidents_received veh5"
  by (simp add: run_reject)
    (simp add: veh5_def update_position_def traci_reject_def traci_near_def)

text \<open>
  C9, amended. If the simulator rejects a \<open>setRoute\<close> command that a call of
  \<open>listen_and_reroute\<close> sent for an accident, the failure is printed, the command was
  sent once in this call and no later call does anything for that accident (no retry).
  The vehicle's state is not the one before the attempt: the accident is marked as
  processed, and the stored route is what the commands sent in the call, accepted or
  not, make of the route read from the simulator, each command differing from the
  route stored before it.
\<close>

theorem rejected_setRoute_state:
  assumes run: "listen_and_reroute tr rnd k v cen cps g cr = ((v', evs, k'), err)"
    and sent: "SetRoute_sent vid acc r \<in> set evs"
    and rej: "\<not> setRoute_accepts tr vid r"
  shows "Error_printed vid acc \<in> set evs
       \<and> length (filter (is_setroute acc) evs) = 1
       \<and> acc \<in> accidents_received v'
       \<and> replay (route (update_position tr v)) evs = Some (route v')
       \<and> filter (concerns acc) (snd (listen_calls calls v')) = []"
proof -
  from listen_and_reroute_inv [OF run]
  have inv: "listen_inv tr (update_position tr v) v' evs" .
  then have once: "once_inv (update_position tr v) v' evs"
    and logged: "logged_inv tr (update_position tr v) evs"
    and rep: "replay (route (update_position tr v)) evs = Some (route v')"
    by (simp_all add: listen_inv_def)
  from logged sent rej have printed: "Error_printed vid acc \<in> set evs"
    unfolding logged_inv_def by metis
  have "is_setroute acc (SetRoute_sent vid acc r)" by simp
  with sent have ne: "filter (is_setroute acc) evs \<noteq> []"
    unfolding filter_empty_conv by blast
  moreover from once have "length (filter (is_setroute acc) evs) \<le> 1"
    by (simp add: once_inv_def)
  ultimately have one: "length (filter (is_setroute acc) evs) = 1"
    by (cases "filter (is_setroute acc) evs") auto
  have "concerns acc (SetRoute_sent vid acc r)" by simp
  with sent have "\<exists>e \<in> set evs. concerns acc e" by blast
  with once have marked: "acc \<in> accidents_received v'"
    by (simp add: once_inv_def)
  obtain v2 evs2 where later: "listen_calls calls v' = (v2, evs2)"
    by (cases "listen_calls calls v'")
  from listen_calls_once [OF later] marked have "\<not> (\<exists>e \<in> set evs2. concerns acc e)"
    unfolding once_inv_def by blast
  then have quiet: "filter (concerns acc) evs2 = []"
    by (simp add: filter_empty_conv)
  from printed one marked rep quiet later show ?thesis by simp
qed

theorem rejected_setRoute_state_witness:
  "listen_and_reroute traci_reject zero_draws 0 veh5 cen0 EDGE_NODE_POSITIONS sim_graph 200 =
   ((veh5\<lparr>route := [Seg ''B'', Seg ''C''], accidents_received := {''ACC_002'', ''ACC_001''}\<rparr>,
     [V2I_received ''veh5'' ''ACC_001'', Reroute_computed ''veh5'' ''ACC_001'',
      SetRoute_sent ''veh5'' ''ACC_001'' [Seg ''B'', Seg ''C''], Error_printed ''veh5'' ''ACC_001'',
      V2I_received ''veh5'' ''ACC_002'', Reroute_computed ''veh5'' ''ACC_002''], 24), None)
   \<and> \<not> setRoute_accepts traci_reject ''veh5'' [Seg ''B'', Seg ''C'']
   \<and> replay (route (update_position traci_reject veh5))
        [V2I_received ''veh5'' ''ACC_001'', Reroute_computed ''veh5'' ''ACC_001'',
         SetRoute_sent ''veh5'' ''ACC_001'' [Seg ''B'', Seg ''C''], Error_printed ''veh5'' ''ACC_001'',
         V2I_received ''veh5'' ''ACC_002'', Reroute_computed ''veh5'' ''ACC_002'']
       = Some [Seg ''B'', Seg ''C'']
   \<and> filter (concerns ''ACC_001'')
        (snd (listen_calls [(traci_reject, zero_draws, 24, cen0, EDGE_NODE_POSITIONS, sim_graph, 200)]
               (veh5\<lparr>route := [Seg ''B'', Seg ''C''],
                      accidents_received := {''ACC_002'', ''ACC_001''}\<rparr>))) = []"
proof -
  have rej: "\<not> setRoute_accepts traci_reject ''veh5'' [Seg ''B'', Seg ''C'']"
    by (simp add: traci_reject_def)
  have sent: "SetRoute_sent ''veh5'' ''ACC_001'' [Seg ''B'', Seg ''C'']
      \<in> set [V2I_received ''veh5'' ''ACC_001'', Reroute_computed ''veh5'' ''ACC_001'',
         SetRoute_sent ''veh5'' ''ACC_001'' [Seg ''B'', Seg ''C''], Error_printed ''veh5'' ''ACC_001'',
         V2I_received ''veh5'' ''ACC_002'', Reroute_computed ''veh5'' ''ACC_002'']"
    by simp
  from rejected_setRoute_state [OF run_reject sent rej,
      of "[(traci_reject, zero_draws, 24, cen0, EDGE_NODE_POSITIONS, sim_graph, 200)]"]
    run_reject rej
  show ?thesis by (simp add: veh5_def)
qed

subsection \<open>broadcast\<close>

lemma broadcast_call_fails:
  "\<not> call_binds listen_and_reroute_required listen_and_reroute_optional broadcast_call_keywords"
  by (simp add: call_binds_def listen_and_reroute_required_def listen_and_reroute_optional_def
      broadcast_call_keywords_def)

lemma notify_vehicle_unchanged:
  "notify_vehicle tr rnd self pd g cr data (vid, vehicle) (evs, k) = (vehicle, evs, k)"
  by (simp add: notify_vehicle_def broadcast_call_fails Let_def split: option.splits)

lemma notify_vehicles_unchanged:
  "notify_vehicles tr rnd self pd g cr data vs (evs, k) = (vs, evs, k)"
  by (induction vs) (auto simp: notify_vehicle_unchanged)

lemma broadcast_loop_vehicles:
  "fst (snd (fst (broadcast_loop tr rnd t g cr cen done todo (vs, evs, k)))) = vs"
proof (induction todo arbitrary: "done" evs k)
  case Nil
  then show ?case by simp
next
  case (Cons a todo)
  obtain acc_id data where a: "a = (acc_id, data)" by (cases a)
  show ?case
    unfolding a
    by (simp add: Let_def notify_vehicles_unchanged Cons.IH split: sum.splits)
qed

lemma broadcast_vehicles_unchanged:
  "fst (snd (fst (broadcast tr rnd k cen t vs g cr))) = vs"
  by (simp add: broadcast_def broadcast_loop_vehicles)

lemma run_accept:
  "listen_and_reroute traci_near zero_draws 0 veh5 cen0 EDGE_NODE_POSITIONS sim_graph 200 =
   ((veh5\<lparr>route := [Seg ''B'', Seg ''C''], accidents_received := {''ACC_002'', ''ACC_001''}\<rparr>,
     [V2I_received ''veh5'' ''ACC_001'', Reroute_computed ''veh5'' ''ACC_001'',
      SetRoute_sent ''veh5'' ''ACC_001'' [Seg ''B'', Seg ''C''], Reroute_printed ''veh5'' ''ACC_001'',
      V2I_received ''veh5'' ''ACC_002'', Reroute_computed ''veh5'' ''ACC_002''], 24), None)"
  by (simp add: listen_and_reroute_def update_position_def traci_near_def
      veh5_def cen0_def CENBroadcast_init_def EDGE_NODE_POSITIONS_def distance_to_cen_def
      hypot_le_iff map_position_sim_graph aco1 aco2 Let_def)

text \<open>
  C7. \<open>broadcast\<close> calls \<open>listen_and_reroute\<close> with the keyword \<open>accident_edge\<close>, which
  is no parameter of it: the call raises TypeError before the body runs, and the bare
  \<open>except\<close> around it swallows the error. So no broadcast ever changes a vehicle. With
  accident \<open>ACC_001\<close> due at time 10, \<open>veh5\<close> is not involved and stands at the registering
  node, yet it stays as it was, while a direct call of \<open>listen_and_reroute\<close> marks the
  accident as received. The last-broadcast time of the due accident is reset and the
  accident not yet due is untouched. Besides, the main loop registers the characters of
  the first vehicle's id as the involved set, so no vehicle id is ever found in it.
\<close>

theorem broadcast_call_never_binds:
  "fst (snd (fst (broadcast tr rnd k cen t vs g cr))) = vs
   \<and> broadcast traci_near zero_draws 0 cen0 10 [(''veh0'', veh0), (''veh5'', veh5)] sim_graph (Some 200) =
      ((cen0\<lparr>accidents :=
          [(''ACC_001'', \<lparr>location = (30, 20), last_time = 10,
                          registered_by_edge = Some ''EdgeNode_A'',
                          registered_by_name = Some ''EdgeCEN_A'',
                          vehicles_involved = {''veh0''}\<rparr>),
           (''ACC_002'', \<lparr>location = (30, 120), last_time = 3,
                          registered_by_edge = Some ''EdgeNode_D'',
                          registered_by_name = Some ''EdgeCEN_D'',
                          vehicles_involved = {''veh2''}\<rparr>)]\<rparr>,
        [(''veh0'', veh0), (''veh5'', veh5)],
        [Broadcast_printed ''ACC_001'', CEN_received ''EdgeNode_A'' ''ACC_001'',
         CEN_received ''EdgeNode_D'' ''ACC_001'', CEN_received ''EdgeNode_I'' ''ACC_001''], 0), None)
   \<and> getPosition traci_near ''veh5'' = Some (30, 20)
   \<and> map_of EDGE_NODE_POSITIONS ''EdgeNode_A'' = Some (30, 20)
   \<and> accidents_received veh5 = {}
   \<and> accidents_received (fst (fst (listen_and_reroute traci_near zero_draws 0 veh5 cen0
                                     EDGE_NODE_POSITIONS sim_graph 200))) = {''ACC_002'', ''ACC_001''}
   \<and> vehicles_involved (snd (last (accidents
        (register_collision cen0 ''ACC_003'' (30, 20) 12 (''veh0'', ''veh1'')))))
      = {''v'', ''e'', ''h'', ''0''}"
proof -
  have "broadcast traci_near zero_draws 0 cen0 10 [(''veh0'', veh0), (''veh5'', veh5)] sim_graph (Some 200) =
      ((cen0\<lparr>accidents :=
          [(''ACC_001'', \<lparr>location = (30, 20), last_time = 10,
                          registered_by_edge = Some ''EdgeNode_A'',
                          registered_by_name = Some ''EdgeCEN_A'',
                          vehicles_involved = {''veh0''}\<rparr>),
           (''ACC_002'', \<lparr>location = (30, 120), last_time = 3,
                          registered_by_edge = Some ''EdgeNode_D'',
                          registered_by_name = Some ''EdgeCEN_D'',
                          vehicles_involved = {''veh2''}\<rparr>)]\<rparr>,
        [(''veh0'', veh0), (''veh5'', veh5)],
        [Broadcast_printed ''ACC_001'', CEN_received ''EdgeNode_A'' ''ACC_001'',
         CEN_received ''EdgeNode_D'' ''ACC_001'', CEN_received ''EdgeNode_I'' ''ACC_001''], 0), None)"
    by (simp add: broadcast_def cen0_def CENBroadcast_init_def initialize_edge_nodes_def
        EDGE_NODE_POSITIONS_def hypot_le_iff notify_vehicles_unchanged Let_def)
  moreover have "vehicles_involved (snd (last (accidents
        (register_collision cen0 ''ACC_003'' (30, 20) 12 (''veh0'', ''veh1'')))))
      = {''v'', ''e'', ''h'', ''0''}"
    by (simp add: register_collision_def register_def cen0_def Let_def)
  moreover have "getPosition traci_near ''veh5'' = Some (30, 20)"
    "map_of EDGE_NODE_POSITIONS ''EdgeNode_A'' = Some (30, 20)"
    "accidents_received veh5 = {}"
    by (simp_all add: traci_near_def EDGE_NODE_POSITIONS_def veh5_def)
  ultimately show ?thesis
    by (simp add: broadcast_vehicles_unchanged run_accept)
qed

subsection \<open>fitness\<close>

lemma anchor_nonempty: "map_of ambulance_anchor_edges a = Some anchor \<Longrightarrow> anchor \<noteq> []"
  by (auto simp: ambulance_anchor_edges_def split: if_splits)

lemma edge_bonus_amended:
  "map_of ambulance_anchor_edges a = Some anchor \<Longrightarrow>
   edge_bonus a edge = Inr (amended_edge_bonus anchor edge)"
  using anchor_nonempty [of a anchor]
  by (simp add: edge_bonus_def amended_edge_bonus_def split: segment.splits)

text \<open>
  C3, as stated, fails: the anchor \<open>A_B\<close> of ambulance0 and the accident segment \<open>B_C\<close>
  share the end node \<open>B\<close>, the claim's formula gives the bonus one half and the fitness
  1.15, and \<open>fitness\<close> returns 0.65 (no bonus).
\<close>

theorem fitness_shared_endpoint_counterexample:
  "fitness traci_amb congestion2 ''ambulance0'' 3 4 [(''ambulance0'', (3, 4))] (Seg ''B_C'')
        = Inr (65 / 100)
   \<and> map_of ambulance_anchor_edges ''ambulance0'' = Some ''A_B''
   \<and> endpoints ''A_B'' \<inter> endpoints ''B_C'' = {CHR ''B''}
   \<and> readiness_of ''ambulance0'' / 100 - sqrt ((3 - 3)\<^sup>2 + (4 - 4)\<^sup>2) / 200
       - congestion_val traci_amb congestion2 ''ambulance0'' / 10 + spec_edge_bonus ''A_B'' ''B_C''
      = 115 / 100"
  by (simp add: fitness_def edge_bonus_def ambulance_anchor_edges_def ambulance_readiness_def
      congestion_val_def traci_amb_def congestion2_def endpoints_def spec_edge_bonus_def
      readiness_of_def Let_def)

text \<open>
  C3, amended. For each of the ambulances (the individuals with an anchor segment)
  whose position is known, \<open>fitness\<close> is readiness/100 minus distance/200 minus
  congestion/10 plus the edge bonus, where the readiness defaults to 50, the congestion
  defaults to 5 when the simulator or the estimator fails, and the edge bonus is 1 when
  the anchor equals the accident segment, one half when the two ids begin with the same
  character or end with the same character, and 0 otherwise (also when there is no
  accident segment). An ambulance whose position is unknown gets -9999.
\<close>

theorem fitness_formula:
  assumes "map_of ambulance_anchor_edges a = Some anchor"
  shows "(\<forall>x y. map_of positions a = Some (x, y) \<longrightarrow>
            fitness tr cong a ax ay positions edge =
              Inr (readiness_of a / 100 - sqrt ((x - ax)\<^sup>2 + (y - ay)\<^sup>2) / 200
                   - congestion_val tr cong a / 10 + amended_edge_bonus anchor edge))
       \<and> (map_of positions a = None \<longrightarrow> fitness tr cong a ax ay positions edge = Inr (- 9999))"
  by (simp add: fitness_def Let_def readiness_of_def edge_bonus_amended [OF assms])


theorem fitness_formula_witness:
  "map_of ambulance_anchor_edges ''ambulance0'' = Some ''A_B''
   \<and> map_of [(''ambulance0'', (3, 4))] ''ambulance0'' = Some (3, 4)
   \<and> fitness traci_amb congestion2 ''ambulance0'' 0 0 [(''ambulance0'', (3, 4))] (Seg ''A_D'')
       = Inr (85 / 100 - sqrt 25 / 200 - 2 / 10 + 1 / 2)
   \<and> map_of ambulance_anchor_edges ''ambulance1'' = Some ''D_G''
   \<and> map_of [(''ambulance0'', (3, 4))] ''ambulance1'' = None
   \<and> fitness traci_amb congestion2 ''ambulance1'' 0 0 [(''ambulance0'', (3, 4))] (Seg ''A_D'')
       = Inr (- 9999)"
proof -
  have a0: "map_of ambulance_anchor_edges ''ambulance0'' = Some ''A_B''"
    and a1: "map_of ambulance_anchor_edges ''ambulance1'' = Some ''D_G''"
    by (simp_all add: ambulance_anchor_edges_def)
  have vals: "readiness_of ''ambulance0'' = 85"
    "congestion_val traci_amb congestion2 ''ambulance0'' = 2"
    "amended_edge_bonus ''A_B'' (Seg ''A_D'') = 1 / 2"
    by (simp_all add: readiness_of_def ambulance_readiness_def congestion_val_def traci_amb_def
        congestion2_def amended_edge_bonus_def)
  from fitness_formula [OF a0, of "[(''ambulance0'', (3, 4))]" traci_amb congestion2 0 0 "Seg ''A_D''"]
    fitness_formula [OF a1, of "[(''ambulance0'', (3, 4))]" traci_amb congestion2 0 0 "Seg ''A_D''"]
    a0 a1 vals
  show ?thesis by simp
qed

subsection \<open>select\_best\_ambulance\<close>

declare breed.simps [simp del]

lemma ambulance_ids_nonempty: "map fst ambulance_readiness \<noteq> []"
  by (simp add: ambulance_readiness_def)

lemma random_choice_mem:
  "xs \<noteq> [] \<Longrightarrow> \<exists>x. random_choice pick k xs = Inr x \<and> x \<in> set xs"
  by (simp add: random_choice_def)

lemma map_of_in_keys: "x \<in> fst ` set kvs \<Longrightarrow> \<exists>v. map_of kvs x = Some v"
  by (metis map_of_eq_None_iff option.exhaust)

lemma tournament_rounds_ok:
  assumes "pop \<noteq> []" "set pop \<subseteq> fst ` set fitnesses" "best \<in> set pop"
  shows "\<exists>b k'. tournament_rounds pick pop fitnesses n best k = Inr (b, k') \<and> b \<in> set pop"
  using assms(3)
proof (induction n arbitrary: best k)
  case 0
  then show ?case by simp
next
  case (Suc n)
  from random_choice_mem [OF assms(1)] obtain c
    where c: "random_choice pick k pop = Inr c" "c \<in> set pop" by blast
  from c(2) assms(2) have "c \<in> fst ` set fitnesses" by (rule subsetD [rotated])
  from map_of_in_keys [OF this] obtain fc where fc: "map_of fitnesses c = Some fc" ..
  from Suc.prems assms(2) have "best \<in> fst ` set fitnesses" by (rule subsetD [rotated])
  from map_of_in_keys [OF this] obtain fb where fb: "map_of fitnesses best = Some fb" ..
  have "(if fc > fb then c else best) \<in> set pop" using c(2) Suc.prems by simp
  from Suc.IH [OF this] show ?case by (simp add: c fc fb)
qed

lemma tournament_selection_ok:
  assumes "pop \<noteq> []" "set pop \<subseteq> fst ` set fitnesses"
  shows "\<exists>b k'. tournament_selection pick k pop fitnesses = Inr (b, k') \<and> b \<in> set pop"
proof -
  from random_choice_mem [OF assms(1)] obtain c
    where c: "random_choice pick k pop = Inr c" "c \<in> set pop" by blast
  from tournament_rounds_ok [OF assms c(2)] show ?thesis
    by (simp add: tournament_selection_def c)
qed

lemma crossover_ok:
  "\<exists>c k'. crossover pick rnd k p1 p2 = Inr (c, k') \<and> (c = p1 \<or> c = p2)"
proof -
  from random_choice_mem [of "[p1, p2]" pick "k + 1"] obtain c
    where "random_choice pick (k + 1) [p1, p2] = Inr c" "c \<in> set [p1, p2]" by blast
  then show ?thesis by (auto simp: crossover_def)
qed

lemma mutate_ok:
  "\<exists>c k'. mutate pick rnd k ind = Inr (c, k') \<and> (c = ind \<or> c \<in> set (map fst ambulance_readiness))"
proof -
  from random_choice_mem [OF ambulance_ids_nonempty, of pick "k + 1"] obtain c
    where "random_choice pick (k + 1) (map fst ambulance_readiness) = Inr c"
      "c \<in> set (map fst ambulance_readiness)" by blast
  then show ?thesis by (auto simp: mutate_def)
qed

lemma breed_ok:
  assumes "pop \<noteq> []" "set pop \<subseteq> fst ` set fitnesses"
    "set pop \<subseteq> set (map fst ambulance_readiness)"
  shows "set np \<subseteq> set (map fst ambulance_readiness) \<Longrightarrow>
         \<exists>np' k'. breed pick rnd pop fitnesses np k = Inr (np', k')
            \<and> set np' \<subseteq> set (map fst ambulance_readiness) \<and> POP_SIZE \<le> length np'"
proof (induction "POP_SIZE - length np" arbitrary: np k)
  case 0
  then show ?case by (simp add: breed.simps [of pick rnd pop fitnesses np k])
next
  case (Suc m)
  then have lt: "length np < POP_SIZE" by simp
  from tournament_selection_ok [OF assms(1,2)] obtain p1 k1
    where t1: "tournament_selection pick k pop fitnesses = Inr (p1, k1)" "p1 \<in> set pop" by blast
  from tournament_selection_ok [OF assms(1,2)] obtain p2 k2
    where t2: "tournament_selection pick k1 pop fitnesses = Inr (p2, k2)" "p2 \<in> set pop" by blast
  from crossover_ok obtain c k3
    where cr: "crossover pick rnd k2 p1 p2 = Inr (c, k3)" "c = p1 \<or> c = p2" by blast
  from mutate_ok obtain c' k4
    where mu: "mutate pick rnd k3 c = Inr (c', k4)"
      "c' = c \<or> c' \<in> set (map fst ambulance_readiness)" by blast
  have "c' \<in> set (map fst ambulance_readiness)"
    using mu(2) cr(2) t1(2) t2(2) assms(3) by auto
  with Suc.prems have sub: "set (np @ [c']) \<subseteq> set (map fst ambulance_readiness)" by simp
  have "m = POP_SIZE - length (np @ [c'])" using Suc.hyps(2) by simp
  from Suc.hyps(1) [OF this sub, of k4] show ?case
    by (simp add: breed.simps [of pick rnd pop fitnesses np k] lt t1 t2 cr mu)
qed

lemma dict_set_keys: "fst ` set (dict_set k v d) = insert k (fst ` set d)"
proof -
  have "fst ` set (dict_set k v d) = set (map fst (dict_set k v d))" by simp
  also have "\<dots> = insert k (fst ` set d)"
    unfolding keys_dict_set by auto
  finally show ?thesis .
qed

lemma dict_set_entries: "set (dict_set k v d) \<subseteq> insert (k, v) (set d)"
proof (induction d)
  case Nil
  then show ?case by simp
next
  case (Cons x d)
  obtain k' v' where x: "x = (k', v')" by (cases x)
  show ?case
  proof (cases "k' = k")
    case True
    then show ?thesis by (auto simp: x)
  next
    case False
    with Cons.IH show ?thesis by (auto simp: x)
  qed
qed

lemma fitness_dict_ok:
  assumes "\<forall>i \<in> set pop. \<exists>v. f i = Inr v"
  shows "\<exists>d'. fitness_dict f pop d = Inr d' \<and> fst ` set d' = fst ` set d \<union> set pop
          \<and> (\<forall>(i, v) \<in> set d'. (i, v) \<in> set d \<or> f i = Inr v)"
  using assms
proof (induction pop arbitrary: d)
  case Nil
  then show ?case by auto
next
  case (Cons i pop)
  from Cons.prems obtain v where v: "f i = Inr v" by auto
  from Cons.prems have "\<forall>i \<in> set pop. \<exists>v. f i = Inr v" by simp
  from Cons.IH [OF this, of "dict_set i v d"] obtain d'
    where d': "fitness_dict f pop (dict_set i v d) = Inr d'"
      "fst ` set d' = fst ` set (dict_set i v d) \<union> set pop"
      "\<forall>(j, w) \<in> set d'. (j, w) \<in> set (dict_set i v d) \<or> f j = Inr w" by blast
  have "\<forall>(j, w) \<in> set d'. (j, w) \<in> set d \<or> f j = Inr w"
    using d'(3) dict_set_entries [of i v d] v by fastforce
  with d'(1,2) show ?case by (simp add: v dict_set_keys)
qed

lemma evolve_ok:
  assumes tot: "\<forall>i \<in> set (map fst ambulance_readiness). \<exists>v. f i = Inr v"
  shows "pop \<noteq> [] \<Longrightarrow> set pop \<subseteq> set (map fst ambulance_readiness) \<Longrightarrow>
         \<exists>pop' k'. evolve f pick rnd n pop k = Inr (pop', k') \<and> pop' \<noteq> []
            \<and> set pop' \<subseteq> set (map fst ambulance_readiness)"
proof (induction n arbitrary: pop k)
  case 0
  then show ?case by simp
next
  case (Suc n)
  from tot Suc.prems(2) have "\<forall>i \<in> set pop. \<exists>v. f i = Inr v" by blast
  from fitness_dict_ok [OF this, of "[]"] obtain d
    where d: "fitness_dict f pop [] = Inr d" "fst ` set d = set pop" by auto
  from d(2) have sub: "set pop \<subseteq> fst ` set d" by simp
  from breed_ok [OF Suc.prems(1) sub Suc.prems(2), of "[]" pick rnd k] obtain np k1
    where b: "breed pick rnd pop d [] k = Inr (np, k1)"
      "set np \<subseteq> set (map fst ambulance_readiness)" "POP_SIZE \<le> length np" by auto
  from b(3) have "np \<noteq> []" by (auto simp: POP_SIZE_def)
  from Suc.IH [OF this b(2), of k1] show ?case by (simp add: d b)
qed

lemma initial_population_ok:
  "\<exists>pop k'. initial_population pick n k = Inr (pop, k')
      \<and> set pop \<subseteq> set (map fst ambulance_readiness) \<and> length pop = n"
proof (induction n arbitrary: k)
  case 0
  then show ?case by simp
next
  case (Suc n)
  from random_choice_mem [OF ambulance_ids_nonempty, of pick k] obtain c
    where c: "random_choice pick k (map fst ambulance_readiness) = Inr c"
      "c \<in> set (map fst ambulance_readiness)" by blast
  from Suc.IH [of "k + 1"] obtain pop k'
    where "initial_population pick n (k + 1) = Inr (pop, k')"
      "set pop \<subseteq> set (map fst ambulance_readiness)" "length pop = n" by blast
  with c show ?case by simp
qed

lemma fitness_total:
  assumes "i \<in> set (map fst ambulance_readiness)"
  shows "\<exists>v. fitness tr cong i ax ay positions edge = Inr v"
proof -
  from assms obtain anchor where "map_of ambulance_anchor_edges i = Some anchor"
    by (auto simp: ambulance_readiness_def ambulance_anchor_edges_def)
  from edge_bonus_amended [OF this] have b: "edge_bonus i edge = Inr (amended_edge_bonus anchor edge)" .
  show ?thesis
  proof (cases "map_of positions i")
    case None
    then show ?thesis by (simp add: fitness_def)
  next
    case (Some p)
    obtain x y where "p = (x, y)" by (cases p)
    with Some show ?thesis by (simp add: fitness_def Let_def b)
  qed
qed

lemma final_population_ok:
  "\<exists>pop k'. final_population tr cong pick rnd k ax ay positions edge = Inr (pop, k')
      \<and> pop \<noteq> [] \<and> set pop \<subseteq> set (map fst ambulance_readiness)"
proof -
  from initial_population_ok [of pick POP_SIZE k] obtain pop0 k0
    where i: "initial_population pick POP_SIZE k = Inr (pop0, k0)"
      "set pop0 \<subseteq> set (map fst ambulance_readiness)" "length pop0 = POP_SIZE" by blast
  from i(3) have ne: "pop0 \<noteq> []" by (auto simp: POP_SIZE_def)
  have tot: "\<forall>i \<in> set (map fst ambulance_readiness).
      \<exists>v. fitness tr cong i ax ay positions edge = Inr v"
    using fitness_total by blast
  from evolve_ok [of "\<lambda>ind. fitness tr cong ind ax ay positions edge", OF tot ne i(2)]
  show ?thesis by (simp add: final_population_def i(1))
qed

lemma max_key_from_mem: "max_key_from rest (b, fb) \<in> insert b (fst ` set rest)"
proof (induction rest arbitrary: b fb)
  case Nil
  then show ?case by simp
next
  case (Cons x rest)
  obtain i v where x: "x = (i, v)" by (cases x)
  from Cons.IH [of i v] Cons.IH [of b fb] show ?case
    by (cases "v > fb") (auto simp: x)
qed

lemma max_key_from_unique:
  assumes "\<forall>(i, v) \<in> set rest. (i = a \<longrightarrow> v = fa) \<and> (i \<noteq> a \<longrightarrow> v < fa)"
    and "(b = a \<and> fb = fa) \<or> (b \<noteq> a \<and> fb < fa \<and> a \<in> fst ` set rest)"
  shows "max_key_from rest (b, fb) = a"
  using assms
proof (induction rest arbitrary: b fb)
  case Nil
  then show ?case by auto
next
  case (Cons x rest)
  obtain i v where x: "x = (i, v)" by (cases x)
  from Cons.prems(1) have rest: "\<forall>(i, v) \<in> set rest. (i = a \<longrightarrow> v = fa) \<and> (i \<noteq> a \<longrightarrow> v < fa)"
    by simp
  from Cons.prems(1) have xa: "i = a \<longrightarrow> v = fa" "i \<noteq> a \<longrightarrow> v < fa" by (simp_all add: x)
  show ?case
  proof (cases "v > fb")
    case True
    have "(i = a \<and> v = fa) \<or> (i \<noteq> a \<and> v < fa \<and> a \<in> fst ` set rest)"
      using Cons.prems(2) xa True by (auto simp: x)
    from Cons.IH [OF rest this] True show ?thesis by (simp add: x)
  next
    case False
    have "(b = a \<and> fb = fa) \<or> (b \<noteq> a \<and> fb < fa \<and> a \<in> fst ` set rest)"
      using Cons.prems(2) xa False by (auto simp: x)
    from Cons.IH [OF rest this] False show ?thesis by (simp add: x)
  qed
qed

lemma random_choice_first: "xs \<noteq> [] \<Longrightarrow> random_choice first_pick k xs = Inr (hd xs)"
  by (simp add: random_choice_def first_pick_def hd_conv_nth)

lemma tournament_rounds_first:
  assumes "pop \<noteq> []" "hd pop = a" "map_of fitnesses a = Some fa"
  shows "tournament_rounds first_pick pop fitnesses n a k = Inr (a, k + n)"
  by (induction n arbitrary: k) (simp_all add: random_choice_first assms)

lemma tournament_selection_first:
  assumes "pop \<noteq> []" "hd pop = a" "map_of fitnesses a = Some fa"
  shows "tournament_selection first_pick k pop fitnesses = Inr (a, k + 3)"
  by (simp add: tournament_selection_def random_choice_first assms tournament_rounds_first [OF assms]
      TOURNAMENT_K_def)

lemma crossover_first: "crossover first_pick zero_draws k a a = Inr (a, k + 2)"
  by (simp add: crossover_def zero_draws_def CROSSOVER_RATE_def random_choice_first)

lemma mutate_first: "mutate first_pick zero_draws k a = Inr (''ambulance0'', k + 2)"
  by (simp add: mutate_def zero_draws_def MUTATION_RATE_def random_choice_first
      ambulance_readiness_def)

lemma breed_first:
  assumes "pop \<noteq> []" "hd pop = a" "map_of fitnesses a = Some fa"
  shows "breed first_pick zero_draws pop fitnesses np k =
           Inr (np @ replicate (POP_SIZE - length np) ''ambulance0'',
                k + 10 * (POP_SIZE - length np))"
proof (induction "POP_SIZE - length np" arbitrary: np k)
  case 0
  then show ?case by (simp add: breed.simps [of _ _ pop fitnesses np k])
next
  case (Suc m)
  then have lt: "length np < POP_SIZE" by simp
  have m: "m = POP_SIZE - length (np @ [''ambulance0''])" using Suc.hyps(2) by simp
  have len: "POP_SIZE - length np = Suc (POP_SIZE - Suc (length np))" using lt by simp
  show ?case
    by (simp add: breed.simps [of _ _ pop fitnesses np k] lt tournament_selection_first [OF assms]
        crossover_first mutate_first Suc.hyps(1) [OF m] len replicate_app_Cons_same)
qed

lemma fitness_dict_same:
  "f a = Inr v \<Longrightarrow> fitness_dict f (replicate n a) [(a, v)] = Inr [(a, v)]"
  by (induction n) simp_all

lemma fitness_dict_replicate:
  "f a = Inr v \<Longrightarrow> fitness_dict f (replicate (Suc n) a) [] = Inr [(a, v)]"
  by (simp add: fitness_dict_same)

lemma evolve_first:
  assumes "f ''ambulance0'' = Inr v"
  shows "evolve f first_pick zero_draws n (replicate POP_SIZE ''ambulance0'') k =
           Inr (replicate POP_SIZE ''ambulance0'', k + n * (10 * POP_SIZE))"
proof (induction n arbitrary: k)
  case 0
  then show ?case by simp
next
  case (Suc n)
  have p: "replicate POP_SIZE ''ambulance0'' = replicate (Suc 19) ''ambulance0''"
    by (simp add: POP_SIZE_def)
  have d: "fitness_dict f (replicate POP_SIZE ''ambulance0'') [] = Inr [(''ambulance0'', v)]"
    unfolding p using assms by (rule fitness_dict_replicate)
  have b: "breed first_pick zero_draws (replicate POP_SIZE ''ambulance0'') [(''ambulance0'', v)] [] k
        = Inr (replicate POP_SIZE ''ambulance0'', k + 10 * POP_SIZE)"
    using breed_first [of "replicate POP_SIZE ''ambulance0''" "''ambulance0''"
        "[(''ambulance0'', v)]" v "[]" k]
    by (simp add: POP_SIZE_def)
  show ?case by (simp add: d b Suc.IH algebra_simps)
qed

lemma initial_population_first:
  "initial_population first_pick n k = Inr (replicate n ''ambulance0'', k + n)"
  by (induction n arbitrary: k) (simp_all add: random_choice_first ambulance_readiness_def)

lemma final_population_first:
  assumes "fitness tr cong ''ambulance0'' ax ay positions edge = Inr v"
  shows "final_population tr cong first_pick zero_draws k ax ay positions edge =
           Inr (replicate POP_SIZE ''ambulance0'', k + 6020)"
  using evolve_first [of "\<lambda>ind. fitness tr cong ind ax ay positions edge" v GENERATIONS "k + POP_SIZE"] assms
  by (simp add: final_population_def initial_population_first)
    (simp add: POP_SIZE_def GENERATIONS_def)

lemma select_first:
  assumes "fitness tr cong ''ambulance0'' ax ay positions edge = Inr v"
  shows "select_best_ambulance tr cong first_pick zero_draws k ax ay positions edge =
           Inr (''ambulance0'', k + 6020)"
proof -
  have p: "replicate POP_SIZE ''ambulance0'' = replicate (Suc 19) ''ambulance0''"
    by (simp add: POP_SIZE_def)
  have d: "fitness_dict (\<lambda>ind. fitness tr cong ind ax ay positions edge)
      (replicate POP_SIZE ''ambulance0'') [] = Inr [(''ambulance0'', v)]"
    unfolding p using assms by (rule fitness_dict_replicate)
  show ?thesis
    by (simp add: select_best_ambulance_def final_population_first [OF assms] d py_max_key_def
        ambulance_routes_def)
qed

lemma far_sqrt: "sqrt (4001600160000 :: real) = 2000400"
  by (rule real_sqrt_unique) simp_all

text \<open>
  Two runs of the model. Under draws that always choose the first element (a random
  source that the model admits; no seed of Python's generator is known to produce it)
  the population never holds anything but ambulance0, which is returned although only
  ambulance1 has a known position. And a known ambulance far enough from the accident
  has a fitness below the sentinel of the unknown ones.
\<close>

lemma select_best_ambulance_first_draws:
  "select_best_ambulance traci_amb congestion2 first_pick zero_draws 0 30 120
     [(''ambulance1'', (30, 120))] PyNone = Inr (''ambulance0'', 6020)
   \<and> map fst ambulance_readiness = [''ambulance0'', ''ambulance1'', ''ambulance2'']
   \<and> map_of [(''ambulance1'', (30 :: real, 120 :: real))] ''ambulance1'' = Some (30, 120)
   \<and> map_of [(''ambulance1'', (30 :: real, 120 :: real))] ''ambulance0'' = None
   \<and> map_of [(''ambulance1'', (30 :: real, 120 :: real))] ''ambulance2'' = None
   \<and> fitness traci_amb congestion2 ''ambulance1'' 2000400 120 [(''ambulance1'', (0, 120))] PyNone
       = Inr (- 100015 / 10)"
proof -
  have "fitness traci_amb congestion2 ''ambulance0'' 30 120 [(''ambulance1'', (30, 120))] PyNone
      = Inr (- 9999)"
    by (simp add: fitness_def)
  from select_first [OF this, of 0]
  have sel: "select_best_ambulance traci_amb congestion2 first_pick zero_draws 0 30 120
     [(''ambulance1'', (30, 120))] PyNone = Inr (''ambulance0'', 6020)"
    by simp
  have far: "fitness traci_amb congestion2 ''ambulance1'' 2000400 120 [(''ambulance1'', (0, 120))]
      PyNone = Inr (- 100015 / 10)"
    by (simp add: fitness_def edge_bonus_def ambulance_readiness_def congestion_val_def
        traci_amb_def congestion2_def far_sqrt Let_def)
  from sel far show ?thesis
    by (simp add: ambulance_readiness_def)
qed

text \<open>
  What holds for every random source: \<open>select_best_ambulance\<close> returns, and it returns
  a member of the final population of the search. When one ambulance has a known
  position, every other ambulance's position is unknown and the fitness of the known
  one is above the sentinel -9999, the member returned is the known ambulance whenever
  the final population holds it. Whether the final population holds it depends on the
  draws.
\<close>

lemma select_best_ambulance_fittest_member:
  assumes known: "map_of positions a = Some p"
    and others: "\<forall>b \<in> set (map fst ambulance_readiness). b \<noteq> a \<longrightarrow> map_of positions b = None"
    and fit: "fitness tr cong a ax ay positions edge = Inr fa" "- 9999 < fa"
  shows "\<exists>pop k'. final_population tr cong pick rnd k ax ay positions edge = Inr (pop, k')
          \<and> pop \<noteq> [] \<and> set pop \<subseteq> set (map fst ambulance_readiness)
          \<and> (\<exists>best. select_best_ambulance tr cong pick rnd k ax ay positions edge = Inr (best, k')
                \<and> best \<in> set pop \<and> (a \<in> set pop \<longrightarrow> best = a))"
proof -
  let ?f = "\<lambda>ind. fitness tr cong ind ax ay positions edge"
  from final_population_ok [of tr cong pick rnd k ax ay positions edge] obtain pop k'
    where fp: "final_population tr cong pick rnd k ax ay positions edge = Inr (pop, k')"
      "pop \<noteq> []" "set pop \<subseteq> set (map fst ambulance_readiness)" by blast
  have "\<forall>i \<in> set pop. \<exists>v. ?f i = Inr v" using fp(3) fitness_total by blast
  from fitness_dict_ok [OF this, of "[]"] obtain d
    where d: "fitness_dict ?f pop [] = Inr d" "fst ` set d = set pop"
      "\<forall>(i, v) \<in> set d. ?f i = Inr v" by auto
  from d(2) fp(2) obtain b fb rest where dd: "d = (b, fb) # rest" 
    by (cases d) auto
  let ?best = "max_key_from rest (b, fb)"
  have mx: "py_max_key d = Inr ?best" by (simp add: py_max_key_def dd)
  have mem: "?best \<in> set pop"
    using max_key_from_mem [of rest b fb] d(2) by (auto simp: dd)
  with fp(3) have "?best \<in> set (map fst ambulance_readiness)" by blast
  then obtain r where r: "map_of ambulance_routes ?best = Some r"
    by (auto simp: ambulance_readiness_def ambulance_routes_def)
  have sel: "select_best_ambulance tr cong pick rnd k ax ay positions edge = Inr (?best, k')"
    by (simp add: select_best_ambulance_def fp(1) d(1) mx r)
  have uniq: "?best = a" if a: "a \<in> set pop"
  proof -
    have entry: "(i = a \<longrightarrow> v = fa) \<and> (i \<noteq> a \<longrightarrow> v < fa)" if iv: "(i, v) \<in> set d" for i v
    proof -
      from d(3) iv have fv: "?f i = Inr v" by blast
      from iv d(2) have "i \<in> set pop" by force
      with fp(3) have ik: "i \<in> set (map fst ambulance_readiness)" by blast
      show ?thesis
      proof (cases "i = a")
        case True
        with fv fit(1) show ?thesis by simp
      next
        case False
        with others ik have "map_of positions i = None" by blast
        then have "?f i = Inr (- 9999)" by (simp add: fitness_def)
        with fv fit(2) False show ?thesis by simp
      qed
    qed
    have e1: "\<forall>(i, v) \<in> set rest. (i = a \<longrightarrow> v = fa) \<and> (i \<noteq> a \<longrightarrow> v < fa)"
      using entry by (auto simp: dd)
    have "a \<in> fst ` set d" using a d(2) by simp
    then have e2: "(b = a \<and> fb = fa) \<or> (b \<noteq> a \<and> fb < fa \<and> a \<in> fst ` set rest)"
      using entry [of b fb] by (auto simp: dd)
    from max_key_from_unique [OF e1 e2] show ?thesis .
  qed
  from fp sel mem uniq show ?thesis by blast
qed

end
